theory Spec2Isabelle
  imports Main "HOL-Library.Monad_Syntax"
begin

chapter \<open>The model\<close>

section \<open>Strings\<close>

text \<open>
  The generator of \<^verbatim>\<open>src/swagger/swagger.js\<close> turns the documented \<^verbatim>\<open>http in\<close> nodes of a
  Node-RED flow into an OpenAPI 3.0 document. JavaScript strings are modelled as
  \<^typ>\<open>string\<close>, one \<^typ>\<open>char\<close> for one code unit; the letter functions below cover the
  ASCII range, which is where HTTP verbs and URL templates live.
\<close>

definition code :: "char \<Rightarrow> nat" where
  "code c = of_char c"

text \<open>The class \<^verbatim>\<open>\w\<close> of a regular expression without flags: letters, digits, underscore.\<close>

definition is_word :: "char \<Rightarrow> bool" where
  "is_word c = ((48 \<le> code c \<and> code c \<le> 57) \<or> (65 \<le> code c \<and> code c \<le> 90)
     \<or> code c = 95 \<or> (97 \<le> code c \<and> code c \<le> 122))"

text \<open>\<^verbatim>\<open>const convToSwaggerPath = (x) => `/{${x.substring(2)}}`;\<close>\<close>

definition convToSwaggerPath :: "string \<Rightarrow> string" where
  "convToSwaggerPath x = ''/{'' @ drop 2 x @ ''}''"

text \<open>
  \<^verbatim>\<open>url.replace(regexColons, convToSwaggerPath)\<close> with \<^verbatim>\<open>regexColons = /\/:\w*/g\<close>: the
  string is scanned from the left; at a slash followed by a colon the match takes the
  longest run of word characters after the colon, the replacer is called on the matched
  text, and the scan goes on behind the match. Every other character is copied.
\<close>

function replace_colons :: "string \<Rightarrow> string" where
  "replace_colons [] = []"
| "replace_colons [c] = [c]"
| "replace_colons (c # d # cs) =
     (if c = CHR ''/'' \<and> d = CHR '':''
      then convToSwaggerPath (c # d # takeWhile is_word cs) @ replace_colons (dropWhile is_word cs)
      else c # replace_colons (d # cs))"
  by pat_completeness auto
termination
  by (relation "measure length") (auto simp: less_Suc_eq_le length_dropWhile_le intro: le_SucI)

text \<open>\<^verbatim>\<open>const ensureLeadingSlash = (url) => (url.startsWith('/') ? url : '/' + url);\<close>\<close>

definition ensureLeadingSlash :: "string \<Rightarrow> string" where
  "ensureLeadingSlash url = (if take 1 url = ''/'' then url else ''/'' @ url)"

text \<open>
  \<^verbatim>\<open>const stripTerminalSlash = (url) =>
     (url.length > 1 && url.endsWith('/') ? url.slice(0, -1) : url);\<close>
\<close>

definition stripTerminalSlash :: "string \<Rightarrow> string" where
  "stripTerminalSlash url =
     (if length url > 1 \<and> last url = CHR ''/'' then butlast url else url)"

text \<open>The path key of a route, as the handler computes it from the node's \<^verbatim>\<open>url\<close>.\<close>

definition endPoint :: "string \<Rightarrow> string" where
  "endPoint url = stripTerminalSlash (ensureLeadingSlash (replace_colons url))"


definition is_name_char :: "char \<Rightarrow> bool" where
  "is_name_char c = (c \<noteq> CHR ''{'' \<and> c \<noteq> CHR ''}'' \<and> c \<noteq> CHR ''/'')"

function brace_params :: "string \<Rightarrow> string list" where
  "brace_params [] = []"
| "brace_params (c # cs) =
     (if c = CHR ''{'' \<and> take 1 (dropWhile is_name_char cs) = ''}''
      then takeWhile is_name_char cs # brace_params (drop 1 (dropWhile is_name_char cs))
      else brace_params cs)"
  by pat_completeness auto
termination
  by (relation "measure length")
     (auto simp: less_Suc_eq_le intro: order_trans [OF diff_le_self length_dropWhile_le])

text \<open>\<^verbatim>\<open>toUpperCase\<close> and \<^verbatim>\<open>toLowerCase\<close>, on the letters of ASCII.\<close>

definition toUpperCase :: "string \<Rightarrow> string" where
  "toUpperCase s =
     map (\<lambda>c. if 97 \<le> code c \<and> code c \<le> 122 then char_of (code c - 32) else c) s"

definition toLowerCase :: "string \<Rightarrow> string" where
  "toLowerCase s =
     map (\<lambda>c. if 65 \<le> code c \<and> code c \<le> 90 then char_of (code c + 32) else c) s"

text \<open>
  \<^verbatim>\<open>x.trim()\<close> removes white space and line terminators at both ends; below code 256
  these are tab, line feed, vertical tab, form feed, carriage return, space and the
  no-break space.
\<close>

definition is_space :: "char \<Rightarrow> bool" where
  "is_space c = (code c \<in> {9, 10, 11, 12, 13, 32, 160})"

definition trim :: "string \<Rightarrow> string" where
  "trim s = rev (dropWhile is_space (rev (dropWhile is_space s)))"

text \<open>\<^verbatim>\<open>const trimAll = (ary) => ary.map((x) => x.trim());\<close>\<close>

definition trimAll :: "string list \<Rightarrow> string list" where
  "trimAll ary = map trim ary"

text \<open>\<^verbatim>\<open>csvStr.split(',')\<close>: the pieces between the commas, empty ones included.\<close>

fun split_comma :: "string \<Rightarrow> string list" where
  "split_comma [] = [[]]"
| "split_comma (c # cs) =
     (if c = CHR '','' then [] # split_comma cs
      else (case split_comma cs of [] \<Rightarrow> [[c]] | w # ws \<Rightarrow> (c # w) # ws))"

text \<open>\<^verbatim>\<open>server.url.replace(/\/$/, '')\<close>: one slash at the very end is removed.\<close>

definition strip_end_slash :: "string \<Rightarrow> string" where
  "strip_end_slash u = (if u \<noteq> [] \<and> last u = CHR ''/'' then butlast u else u)"

text \<open>Decimal numerals, for array indices as property names and for numbers as text.\<close>

fun show_nat :: "nat \<Rightarrow> string" where
  "show_nat n =
     (if n < 10 then [char_of (48 + n)] else show_nat (n div 10) @ [char_of (48 + n mod 10)])"

declare show_nat.simps [simp del]

definition show_int :: "int \<Rightarrow> string" where
  "show_int i = (if i < 0 then ''-'' @ show_nat (nat (- i)) else show_nat (nat i))"

section \<open>Values\<close>

text \<open>
  The values the handler reads and builds are data: what \<^verbatim>\<open>JSON.parse\<close> and plain
  literals give, and \<^verbatim>\<open>undefined\<close> for what is missing. An object is the list of its
  own properties in the order JavaScript enumerates them. Numbers are integers.
  \<open>Native k\<close> stands for the member that every plain object inherits from
  \<^verbatim>\<open>Object.prototype\<close> under the name \<open>k\<close> (a built-in function; the prototype itself for
  \<^verbatim>\<open>__proto__\<close>): the handler can produce such a value, see
  \<open>getStyleFromCollectionFormat\<close>, and never receives one.
  \<open>Derived p kvs\<close> is an object whose prototype has been replaced by \<open>p\<close>, with the own
  properties \<open>kvs\<close>: an assignment under the name \<^verbatim>\<open>__proto__\<close> calls the setter that
  plain objects inherit and makes such an object, without adding an own property. The
  handler makes these at lines 151 and 173, where the name assigned under comes from the
  data, and never receives one. An own property named \<^verbatim>\<open>__proto__\<close>, as \<^verbatim>\<open>JSON.parse\<close>
  makes it, is a property like any other.
\<close>

datatype jv =
    Undefined
  | Null
  | Bool bool
  | Num int
  | Str string
  | Arr "jv list"
  | Obj "(string \<times> jv) list"
  | Native string
  | Derived jv "(string \<times> jv) list"

type_synonym obj = "(string \<times> jv) list"

text \<open>What \<^verbatim>\<open>if (v)\<close>, \<^verbatim>\<open>!v\<close>, \<^verbatim>\<open>v && w\<close> and \<^verbatim>\<open>v || w\<close> test.\<close>

fun truthy :: "jv \<Rightarrow> bool" where
  "truthy Undefined = False"
| "truthy Null = False"
| "truthy (Bool b) = b"
| "truthy (Num n) = (n \<noteq> 0)"
| "truthy (Str s) = (s \<noteq> [])"
| "truthy (Arr xs) = True"
| "truthy (Obj kvs) = True"
| "truthy (Native k) = True"
| "truthy (Derived p kvs) = True"

text \<open>\<^verbatim>\<open>a || b\<close>\<close>

definition or_else :: "jv \<Rightarrow> jv \<Rightarrow> jv" where
  "or_else a b = (if truthy a then a else b)"

text \<open>The default of a destructuring pattern, \<^verbatim>\<open>{ x = d } = o\<close>: taken for \<^verbatim>\<open>undefined\<close> only.\<close>

definition dflt :: "jv \<Rightarrow> jv \<Rightarrow> jv" where
  "dflt v d = (if v = Undefined then d else v)"

definition nullish :: "jv \<Rightarrow> bool" where
  "nullish v = (v = Undefined \<or> v = Null)"

fun typeof :: "jv \<Rightarrow> string" where
  "typeof Undefined = ''undefined''"
| "typeof Null = ''object''"
| "typeof (Bool b) = ''boolean''"
| "typeof (Num n) = ''number''"
| "typeof (Str s) = ''string''"
| "typeof (Arr xs) = ''object''"
| "typeof (Obj kvs) = ''object''"
| "typeof (Native k) = (if k = ''__proto__'' then ''object'' else ''function'')"
| "typeof (Derived p kvs) = ''object''"

text \<open>
  The own enumerable properties of a value, as \<^verbatim>\<open>Object.keys\<close> and the spread
  \<^verbatim>\<open>{...v}\<close> see them: the properties of an object, the indexed elements of an array,
  the indexed characters of a string, and nothing for the other values.
\<close>

definition indexed :: "'a list \<Rightarrow> (string \<times> 'a) list" where
  "indexed xs = zip (map show_nat [0..<length xs]) xs"

fun own_entries :: "jv \<Rightarrow> obj" where
  "own_entries (Obj kvs) = kvs"
| "own_entries (Derived p kvs) = kvs"
| "own_entries (Arr xs) = indexed xs"
| "own_entries (Str s) = indexed (map (\<lambda>c. Str [c]) s)"
| "own_entries v = []"

definition own_keys :: "jv \<Rightarrow> string list" where
  "own_keys v = map fst (own_entries v)"

text \<open>
  Reading a property. \<open>get\<close> reads an own property of an object; \<open>prop_of\<close> is
  \<^verbatim>\<open>v.k\<close> and \<^verbatim>\<open>v[k]\<close> on a value that is not \<^verbatim>\<open>null\<close> or \<^verbatim>\<open>undefined\<close> (on those the
  read throws, which every caller below checks first). The names the handler reads this
  way are fixed data names, keys taken from \<^verbatim>\<open>Object.keys\<close>, and path keys, which start
  with a slash: none of them is a member of a built-in prototype, so on data only own
  properties matter.

  On an object with a replaced prototype the read follows the chain: \<open>chain_data\<close> is
  the first own property of that name on the object, its prototype, the prototype of
  that, and so on, and \<open>get_chain\<close> is its value. When there is none, the name
  \<^verbatim>\<open>__proto__\<close> still finds the accessor of \<^verbatim>\<open>Object.prototype\<close>, which gives the prototype
  of the object that is read; the accessor is there when the chain ends in a built-in
  prototype (\<open>rooted\<close>) and not in \<^verbatim>\<open>null\<close>.
\<close>

definition get :: "obj \<Rightarrow> string \<Rightarrow> jv" where
  "get kvs k = (case map_of kvs k of Some v \<Rightarrow> v | None \<Rightarrow> Undefined)"

fun chain_data :: "jv \<Rightarrow> string \<Rightarrow> jv option" where
  "chain_data (Derived p kvs) k =
     (case map_of kvs k of Some v \<Rightarrow> Some v | None \<Rightarrow> chain_data p k)"
| "chain_data v k = map_of (own_entries v) k"

definition get_chain :: "jv \<Rightarrow> string \<Rightarrow> jv" where
  "get_chain v k = (case chain_data v k of Some x \<Rightarrow> x | None \<Rightarrow> Undefined)"

fun rooted :: "jv \<Rightarrow> bool" where
  "rooted (Derived p kvs) = rooted p"
| "rooted Null = False"
| "rooted v = True"

fun prop_of :: "jv \<Rightarrow> string \<Rightarrow> jv" where
  "prop_of (Derived p kvs) k =
     (if k \<in> fst ` set kvs then get kvs k
      else if chain_data p k \<noteq> None then get_chain p k
      else if k = ''__proto__'' \<and> rooted p then p
      else Undefined)"
| "prop_of v k = get (own_entries v) k"

text \<open>
  Defining an own property: the properties of an object literal and of a spread, and
  what an assignment does when no setter is in the way. An existing property keeps its
  place. A new one goes to the end, unless its name is an array index (a decimal numeral
  without leading zero, below \<open>2\<^sup>3\<^sup>2 - 1\<close>): JavaScript enumerates those first, in
  ascending order.
\<close>

definition is_digit :: "char \<Rightarrow> bool" where
  "is_digit c = (48 \<le> code c \<and> code c \<le> 57)"

definition dec_value :: "string \<Rightarrow> nat" where
  "dec_value k = foldl (\<lambda>a c. 10 * a + (code c - 48)) 0 k"

definition array_index :: "string \<Rightarrow> nat option" where
  "array_index k =
     (if k \<noteq> [] \<and> list_all is_digit k \<and> (hd k \<noteq> CHR ''0'' \<or> length k = 1)
         \<and> dec_value k < 4294967295
      then Some (dec_value k) else None)"

definition before_index :: "nat \<Rightarrow> string \<times> jv \<Rightarrow> bool" where
  "before_index i kv = (case array_index (fst kv) of Some j \<Rightarrow> j < i | None \<Rightarrow> False)"

definition set_prop :: "string \<Rightarrow> jv \<Rightarrow> obj \<Rightarrow> obj" where
  "set_prop k v kvs =
     (if k \<in> fst ` set kvs then map (\<lambda>(k', v'). if k' = k then (k', v) else (k', v')) kvs
      else (case array_index k of
              None \<Rightarrow> kvs @ [(k, v)]
            | Some i \<Rightarrow> takeWhile (before_index i) kvs @ (k, v) # dropWhile (before_index i) kvs))"

text \<open>
  The assignment \<^verbatim>\<open>target[k] = v\<close> in strict mode, on the objects the handler makes with
  an object literal. Under the name \<^verbatim>\<open>__proto__\<close>, unless a property of that name is found
  as data or the chain ends in \<^verbatim>\<open>null\<close>, the inherited setter runs: it replaces the
  prototype when \<open>v\<close> is an object or \<^verbatim>\<open>null\<close>, does nothing otherwise, and never adds an
  own property. Every other assignment defines an own property. On a primitive target
  the assignment throws; arrays and functions are never the target of an assignment of
  the handler and are not covered.
\<close>

definition is_object :: "jv \<Rightarrow> bool" where
  "is_object v =
     (case v of Arr xs \<Rightarrow> True | Obj kvs \<Rightarrow> True | Native k \<Rightarrow> True | Derived p kvs \<Rightarrow> True
              | _ \<Rightarrow> False)"

definition assign_prop :: "string \<Rightarrow> jv \<Rightarrow> jv \<Rightarrow> jv option" where
  "assign_prop k v target =
     (case target of
        Obj kvs \<Rightarrow>
          Some (if k = ''__proto__'' \<and> k \<notin> fst ` set kvs
                then (if is_object v \<or> v = Null then Derived v kvs else Obj kvs)
                else Obj (set_prop k v kvs))
      | Derived p kvs \<Rightarrow>
          Some (if k = ''__proto__'' \<and> chain_data (Derived p kvs) k = None \<and> rooted p
                then (if is_object v \<or> v = Null then Derived v kvs else Derived p kvs)
                else Derived p (set_prop k v kvs))
      | _ \<Rightarrow> None)"

text \<open>\<^verbatim>\<open>delete o[k]\<close>\<close>

definition delete_prop :: "string \<Rightarrow> obj \<Rightarrow> obj" where
  "delete_prop k kvs = filter (\<lambda>kv. fst kv \<noteq> k) kvs"

text \<open>\<^verbatim>\<open>{...acc, ...v}\<close>: the own properties of \<open>v\<close> are written over \<open>acc\<close>, in order.\<close>

definition spread_into :: "obj \<Rightarrow> jv \<Rightarrow> obj" where
  "spread_into acc v = foldl (\<lambda>a kv. set_prop (fst kv) (snd kv) a) acc (own_entries v)"

text \<open>
  \<^verbatim>\<open>[...v]\<close>: the elements of an array, the characters of a string; any other value is not
  iterable and the spread throws (\<open>None\<close>).
\<close>

fun iter :: "jv \<Rightarrow> jv list option" where
  "iter (Arr xs) = Some xs"
| "iter (Str s) = Some (map (\<lambda>c. Str [c]) s)"
| "iter v = None"

text \<open>
  The conversion to a string that \<^verbatim>\<open>+\<close> on a string and a computed property name
  apply. An array joins its elements with commas, \<^verbatim>\<open>null\<close> and \<^verbatim>\<open>undefined\<close> elements
  giving the empty string. A plain object gives \<^verbatim>\<open>[object Object]\<close>, unless it has an own
  property \<^verbatim>\<open>toString\<close>: that is data, not a function, and the conversion throws. An
  object with a replaced prototype looks for \<^verbatim>\<open>toString\<close> along its chain.
\<close>

definition native_text :: "string \<Rightarrow> string" where
  "native_text k =
     (if k = ''__proto__'' then ''[object Object]''
      else ''function '' @ (if k = ''constructor'' then ''Object'' else k) @ ''() { [native code] }'')"

fun to_string :: "jv \<Rightarrow> string option" and join :: "jv list \<Rightarrow> string option" where
  "to_string Undefined = Some ''undefined''"
| "to_string Null = Some ''null''"
| "to_string (Bool b) = Some (if b then ''true'' else ''false'')"
| "to_string (Num n) = Some (show_int n)"
| "to_string (Str s) = Some s"
| "to_string (Arr xs) = join xs"
| "to_string (Obj kvs) =
     (if ''toString'' \<in> fst ` set kvs then None else Some ''[object Object]'')"
| "to_string (Native k) = Some (native_text k)"
| "to_string (Derived p kvs) =
     (if ''toString'' \<in> fst ` set kvs then None
      else (case p of Null \<Rightarrow> None | Native k \<Rightarrow> None | _ \<Rightarrow> to_string p))"
| "join [] = Some []"
| "join (x # xs) =
     (case (if nullish x then Some [] else to_string x) of
        None \<Rightarrow> None
      | Some a \<Rightarrow> (if xs = [] then Some a
                   else (case join xs of None \<Rightarrow> None | Some b \<Rightarrow> Some (a @ '','' @ b))))"

section \<open>The generator\<close>

text \<open>
  A thrown exception is \<open>None\<close>. The only exceptions the handler's code can raise on
  data are type errors: a property read on \<^verbatim>\<open>null\<close> or \<^verbatim>\<open>undefined\<close>, a call of a
  method that the value does not have, a spread of a value that is not iterable, a
  conversion that fails, an assignment into a primitive.
\<close>

definition DEFAULT_TEMPLATE :: jv where
  "DEFAULT_TEMPLATE = Obj
     [(''openapi'', Str ''3.0.0''),
      (''info'', Obj
         [(''title'', Str ''My Node-RED API''),
          (''version'', Str ''1.0.0''),
          (''description'', Str ''A sample API'')]),
      (''servers'', Arr
         [Obj [(''url'', Str ''http://localhost:1880/''),
               (''description'', Str ''Local server'')]]),
      (''paths'', Obj []),
      (''components'', Obj
         [(''schemas'', Obj []),
          (''responses'', Obj []),
          (''parameters'', Obj []),
          (''securitySchemes'', Obj [])]),
      (''tags'', Arr [])]"

text \<open>\<^verbatim>\<open>const csvStrToArray = (csvStr) => (csvStr ? trimAll(csvStr.split(',')) : []);\<close>\<close>

definition csvStrToArray :: "jv \<Rightarrow> jv option" where
  "csvStrToArray csvStr =
     (if truthy csvStr
      then (case csvStr of Str s \<Rightarrow> Some (Arr (map Str (trimAll (split_comma s)))) | _ \<Rightarrow> None)
      else Some (Arr []))"

text \<open>
  \<^verbatim>\<open>getStyleFromCollectionFormat\<close>. \<^verbatim>\<open>formatMap\<close> is an object literal, so
  \<^verbatim>\<open>formatMap[collectionFormat]\<close> finds its five own properties and, for any other name,
  what the literal inherits from \<^verbatim>\<open>Object.prototype\<close>.
\<close>

definition formatMap :: obj where
  "formatMap =
     [(''csv'', Str ''simple''),
      (''ssv'', Str ''spaceDelimited''),
      (''tsv'', Str ''pipeDelimited''),
      (''pipes'', Str ''pipeDelimited''),
      (''multi'', Str ''form'')]"

definition object_prototype_members :: "string list" where
  "object_prototype_members =
     [''constructor'', ''__defineGetter__'', ''__defineSetter__'', ''hasOwnProperty'',
      ''__lookupGetter__'', ''__lookupSetter__'', ''isPrototypeOf'',
      ''propertyIsEnumerable'', ''toString'', ''valueOf'', ''__proto__'',
      ''toLocaleString'']"

definition formatMap_lookup :: "string \<Rightarrow> jv" where
  "formatMap_lookup k =
     (case map_of formatMap k of
        Some v \<Rightarrow> v
      | None \<Rightarrow> (if k \<in> set object_prototype_members then Native k else Undefined))"

definition getStyleFromCollectionFormat :: "jv \<Rightarrow> jv option" where
  "getStyleFromCollectionFormat collectionFormat =
     (case to_string collectionFormat of
        None \<Rightarrow> None
      | Some k \<Rightarrow> Some (or_else (formatMap_lookup k) (Str ''simple'')))"

text \<open>
  The callback of \<^verbatim>\<open>[...parameters, ...additionalParams].map(...)\<close>, lines 110 to 138:
  one parameter of the documentation record, or one of the global ones, becomes a
  parameter object of the operation.
\<close>

definition paramDef :: "jv \<Rightarrow> jv option" where
  "paramDef param =
     (if nullish param then None
      else
        (let base =
               [(''name'', prop_of param ''name''),
                (''in'', prop_of param ''in''),
                (''required'', or_else (prop_of param ''required'') (Bool False)),
                (''description'', or_else (prop_of param ''description'') (Str []))]
         in if truthy (prop_of param ''schema'')
            then Some (Obj (base @ [(''schema'', prop_of param ''schema'')]))
            else if truthy (prop_of param ''type'')
            then
              (let schema0 = [(''type'', prop_of param ''type'')];
                   schema1 =
                     (if truthy (prop_of param ''format'')
                      then schema0 @ [(''format'', prop_of param ''format'')] else schema0);
                   schema2 =
                     (if prop_of param ''type'' = Str ''array'' \<and> truthy (prop_of param ''items'')
                      then schema1 @ [(''items'', prop_of param ''items'')] else schema1)
               in if truthy (prop_of param ''collectionFormat'')
                     \<and> prop_of param ''type'' = Str ''array''
                  then
                    (case getStyleFromCollectionFormat (prop_of param ''collectionFormat'') of
                       None \<Rightarrow> None
                     | Some style \<Rightarrow>
                         Some (Obj (base @
                           [(''schema'', Obj schema2),
                            (''style'', style),
                            (''explode'', Bool (prop_of param ''collectionFormat'' = Str ''multi''))])))
                  else Some (Obj (base @ [(''schema'', Obj schema2)])))
            else Some (Obj base)))"

text \<open>
  The responses, lines 147 to 171. \<open>response_entry\<close> is what is assigned under one
  status: the object of line 151, with the \<^verbatim>\<open>content\<close> that lines 156 to 161 add to it.
  \<open>add_responses\<close> is the \<^verbatim>\<open>forEach\<close> over \<^verbatim>\<open>Object.keys(responses)\<close>, assigning into the
  object \<^verbatim>\<open>operation.responses\<close>, which starts empty; \<open>operation_responses\<close> adds the test
  before the loop and the fallback after it, which looks at the own keys only.
\<close>

definition response_entry :: "jv \<Rightarrow> jv" where
  "response_entry responseDetails = Obj
     ((''description'', or_else (prop_of responseDetails ''description'') (Str ''No description''))
      # (if truthy (prop_of responseDetails ''schema'')
         then [(''content'', Obj
                 [(''application/json'', Obj [(''schema'', prop_of responseDetails ''schema'')])])]
         else []))"

fun add_responses :: "jv \<Rightarrow> string list \<Rightarrow> jv \<Rightarrow> jv option" where
  "add_responses responses [] acc = Some acc"
| "add_responses responses (status # rest) acc =
     (let responseDetails = prop_of responses status
      in if nullish responseDetails then None
         else (case assign_prop status (response_entry responseDetails) acc of
                 None \<Rightarrow> None
               | Some acc' \<Rightarrow> add_responses responses rest acc'))"

definition successful_response :: jv where
  "successful_response = Obj [(''description'', Str ''Successful response'')]"

definition operation_responses :: "jv \<Rightarrow> jv option" where
  "operation_responses responses =
     (case (if truthy responses \<and> typeof responses = ''object''
            then add_responses responses (own_keys responses) (Obj [])
            else Some (Obj [])) of
        None \<Rightarrow> None
      | Some rs \<Rightarrow>
          if own_keys rs = [] then assign_prop ''200'' successful_response rs else Some rs)"

text \<open>
  The summary, line 94: the default of the destructuring is evaluated only when the
  documentation node has no \<^verbatim>\<open>summary\<close>, and \<^verbatim>\<open>name\<close> is the name of the \<^verbatim>\<open>http in\<close>
  node, from line 80.
\<close>

definition operation_summary :: "jv \<Rightarrow> jv \<Rightarrow> string \<Rightarrow> jv \<Rightarrow> jv option" where
  "operation_summary name method endPoint' swaggerDocNode =
     (if prop_of swaggerDocNode ''summary'' \<noteq> Undefined
      then Some (prop_of swaggerDocNode ''summary'')
      else if truthy name then Some name
      else (case method of
              Str m \<Rightarrow> Some (Str (toUpperCase m @ '' '' @ endPoint'))
            | _ \<Rightarrow> None))"

text \<open>
  The operation object, lines 93 to 171, for a documentation node that is not \<^verbatim>\<open>null\<close>
  or \<^verbatim>\<open>undefined\<close>. The request body is added after the object literal, so its key
  comes last.
\<close>

definition build_operation :: "jv \<Rightarrow> jv \<Rightarrow> string \<Rightarrow> jv \<Rightarrow> jv \<Rightarrow> jv option" where
  "build_operation name method endPoint' additionalParams swaggerDocNode =
     do {
       summary \<leftarrow> operation_summary name method endPoint' swaggerDocNode;
       let description = dflt (prop_of swaggerDocNode ''description'') (Str []);
       let tags = dflt (prop_of swaggerDocNode ''tags'') (Str []);
       let deprecated = dflt (prop_of swaggerDocNode ''deprecated'') (Bool False);
       let parameters = dflt (prop_of swaggerDocNode ''parameters'') (Arr []);
       let requestBody = dflt (prop_of swaggerDocNode ''requestBody'') Null;
       let responses = dflt (prop_of swaggerDocNode ''responses'') (Obj []);
       aryTags \<leftarrow> csvStrToArray tags;
       ps \<leftarrow> iter parameters;
       gs \<leftarrow> iter additionalParams;
       defs \<leftarrow> those (map paramDef (ps @ gs));
       rs \<leftarrow> operation_responses responses;
       Some (Obj
         ([(''summary'', summary),
           (''description'', description),
           (''tags'', aryTags),
           (''deprecated'', deprecated),
           (''parameters'', Arr defs),
           (''responses'', rs)]
          @ (if truthy requestBody
                \<and> own_keys (or_else (prop_of requestBody ''content'') (Obj [])) \<noteq> []
             then [(''requestBody'', requestBody)] else [])))
     }"

text \<open>
  The callback of \<^verbatim>\<open>RED.nodes.eachNode\<close>, lines 79 to 176, on the object \<open>paths\<close> that
  \<^verbatim>\<open>resp.paths\<close> refers to. \<open>gn\<close> is \<^verbatim>\<open>RED.nodes.getNode\<close>. A path key starts with a
  slash, so the assignment of line 91 defines an own property of \<^verbatim>\<open>resp.paths\<close>; line 173
  assigns into the object that is stored under the path key, under a name that comes
  from the data.
\<close>

definition documented :: "(jv \<Rightarrow> jv) \<Rightarrow> obj \<Rightarrow> bool" where
  "documented gn node =
     (get node ''type'' = Str ''http in'' \<and> truthy (get node ''swaggerDoc'')
      \<and> truthy (gn (get node ''swaggerDoc'')))"

definition process_node :: "(jv \<Rightarrow> jv) \<Rightarrow> jv \<Rightarrow> obj \<Rightarrow> obj \<Rightarrow> obj option" where
  "process_node gn additionalParams paths node =
     (let name = get node ''name''; type = get node ''type''; method = get node ''method'';
          swaggerDoc = get node ''swaggerDoc''; url = get node ''url''
      in if type = Str ''http in'' \<and> truthy swaggerDoc
         then
           (let swaggerDocNode = gn swaggerDoc
            in if truthy swaggerDocNode
               then
                 (case url of
                    Str u \<Rightarrow>
                      (let endPoint' = endPoint u;
                           paths1 = (if \<not> truthy (get paths endPoint')
                                     then set_prop endPoint' (Obj []) paths else paths)
                       in do {
                            operation \<leftarrow>
                              build_operation name method endPoint' additionalParams swaggerDocNode;
                            m \<leftarrow> (case method of Str m \<Rightarrow> Some (toLowerCase m) | _ \<Rightarrow> None);
                            pathItem \<leftarrow> assign_prop m operation (get paths1 endPoint');
                            Some (set_prop endPoint' pathItem paths1)
                          })
                  | _ \<Rightarrow> None)
               else Some paths)
         else Some paths)"

text \<open>\<^verbatim>\<open>RED.nodes.eachNode(callback)\<close>: the callback runs on every node of the flow in turn.\<close>

fun eachNode :: "(obj \<Rightarrow> obj \<Rightarrow> obj option) \<Rightarrow> obj list \<Rightarrow> obj \<Rightarrow> obj option" where
  "eachNode f [] paths = Some paths"
| "eachNode f (node # rest) paths =
     (case f paths node of None \<Rightarrow> None | Some paths' \<Rightarrow> eachNode f rest paths')"

text \<open>
  The server list, lines 72 to 77. The prefix is converted to a string inside the
  callback of \<^verbatim>\<open>map\<close>, once for every server.
\<close>

definition adjust_server :: "jv \<Rightarrow> jv \<Rightarrow> jv option" where
  "adjust_server httpNodeRoot server =
     (if nullish server then None
      else (case prop_of server ''url'' of
              Str u \<Rightarrow>
                (case to_string httpNodeRoot of
                   None \<Rightarrow> None
                 | Some root \<Rightarrow>
                     Some (Obj (set_prop ''url'' (Str (strip_end_slash u @ root))
                                  (spread_into [] server))))
            | _ \<Rightarrow> None))"

definition adjust_servers :: "jv \<Rightarrow> jv \<Rightarrow> jv option" where
  "adjust_servers httpNodeRoot servers =
     (case servers of
        Arr xs \<Rightarrow> map_option Arr (those (map (adjust_server httpNodeRoot) xs))
      | _ \<Rightarrow> None)"

text \<open>
  \<^verbatim>\<open>cleanupOpenAPISpec\<close>, lines 187 to 206. \<open>prune_components\<close> is the loop over the four
  category names on the object \<^verbatim>\<open>spec.components\<close>.
\<close>

definition prune_category :: "obj \<Rightarrow> string \<Rightarrow> obj" where
  "prune_category components key =
     (if truthy (get components key) \<and> own_keys (get components key) = []
      then delete_prop key components else components)"

definition categories :: "string list" where
  "categories = [''schemas'', ''responses'', ''parameters'', ''securitySchemes'']"

definition prune_components :: "jv \<Rightarrow> jv" where
  "prune_components components =
     (case components of
        Obj kvs \<Rightarrow> Obj (foldl prune_category kvs categories)
      | _ \<Rightarrow> components)"

definition cleanupOpenAPISpec :: "obj \<Rightarrow> obj" where
  "cleanupOpenAPISpec spec =
     (let spec1 =
            (if truthy (get spec ''components'')
             then (let components = prune_components (get spec ''components'')
                   in if own_keys components = [] then delete_prop ''components'' spec
                      else set_prop ''components'' components spec)
             else spec)
      in if get spec1 ''tags'' = Arr [] then delete_prop ''tags'' spec1 else spec1)"

text \<open>
  The node registry and the settings, which Node-RED provides: \<^verbatim>\<open>RED.settings\<close>, the
  nodes that \<^verbatim>\<open>RED.nodes.eachNode\<close> visits, and \<^verbatim>\<open>RED.nodes.getNode\<close>.
\<close>

record red =
  settings :: obj
  nodes :: "obj list"
  getNode :: "jv \<Rightarrow> jv"

text \<open>
  Line 66. The pattern \<^verbatim>\<open>openapi: {...} = {}\<close> throws when \<^verbatim>\<open>openapi\<close> is \<^verbatim>\<open>null\<close>. The
  result is \<^verbatim>\<open>httpNodeRoot\<close>, \<^verbatim>\<open>template\<close> and \<^verbatim>\<open>additionalParams\<close>.
\<close>

definition read_settings :: "obj \<Rightarrow> (jv \<times> jv \<times> jv) option" where
  "read_settings s =
     (let openapi = dflt (get s ''openapi'') (Obj [])
      in if nullish openapi then None
         else Some (get s ''httpNodeRoot'',
                    dflt (prop_of openapi ''template'') (Obj []),
                    dflt (prop_of openapi ''parameters'') (Arr [])))"

text \<open>
  Lines 68 to 77: the template of the settings is spread over the default one, the
  paths are emptied and the server list is adjusted. \<open>dt\<close> is the value of the constant
  \<^verbatim>\<open>DEFAULT_TEMPLATE\<close> at the time of the request.
\<close>

definition initial_resp :: "jv \<Rightarrow> jv \<Rightarrow> jv \<Rightarrow> obj option" where
  "initial_resp dt httpNodeRoot template =
     (let resp = set_prop ''paths'' (Obj []) (spread_into (spread_into [] dt) template)
      in if truthy httpNodeRoot \<and> httpNodeRoot \<noteq> Str ''/''
         then map_option (\<lambda>servers. set_prop ''servers'' servers resp)
                (adjust_servers httpNodeRoot (get resp ''servers''))
         else Some resp)"

text \<open>
  The body of the \<^verbatim>\<open>try\<close> block, lines 66 to 179, up to the document that is handed to
  \<^verbatim>\<open>res.json\<close>.
\<close>

definition generate :: "jv \<Rightarrow> red \<Rightarrow> jv option" where
  "generate dt r =
     do {
       (httpNodeRoot, template, additionalParams) \<leftarrow> read_settings (settings r);
       resp \<leftarrow> initial_resp dt httpNodeRoot template;
       paths \<leftarrow> eachNode (process_node (getNode r) additionalParams) (nodes r) [];
       Some (Obj (cleanupOpenAPISpec (set_prop ''paths'' (Obj paths) resp)))
     }"

text \<open>
  The route handler, lines 64 to 185: the document with status 200, or the fixed error
  body with status 500 when anything in the \<^verbatim>\<open>try\<close> block has thrown.
\<close>

record response =
  status :: nat
  body :: jv

definition internal_server_error :: response where
  "internal_server_error =
     \<lparr>status = 500, body = Obj [(''error'', Str ''Internal server error'')]\<rparr>"

definition swagger_json :: "jv \<Rightarrow> red \<Rightarrow> response" where
  "swagger_json dt r =
     (case generate dt r of
        None \<Rightarrow> internal_server_error
      | Some resp \<Rightarrow> \<lparr>status = 200, body = resp\<rparr>)"

text \<open>
  The spread at line 68 copies references, so \<^verbatim>\<open>resp.components\<close> is the very object
  \<^verbatim>\<open>DEFAULT_TEMPLATE.components\<close> unless the template of the settings has a
  \<^verbatim>\<open>components\<close> of its own, and the \<^verbatim>\<open>delete\<close> of a category in \<^verbatim>\<open>cleanupOpenAPISpec\<close>
  then changes the constant for the requests that follow. \<open>template_after\<close> is the
  value of \<^verbatim>\<open>DEFAULT_TEMPLATE\<close> after a request.
\<close>

definition template_after :: "jv \<Rightarrow> red \<Rightarrow> jv" where
  "template_after dt r =
     (case generate dt r of
        None \<Rightarrow> dt
      | Some resp \<Rightarrow>
          (case read_settings (settings r) of
             None \<Rightarrow> dt
           | Some (httpNodeRoot, template, additionalParams) \<Rightarrow>
               if ''components'' \<in> set (own_keys template) \<or> \<not> truthy (prop_of dt ''components'')
               then dt
               else Obj (set_prop ''components'' (prune_components (prop_of dt ''components''))
                           (own_entries dt))))"

section \<open>Readings used in the statements\<close>

text \<open>
  The operation that a paths object holds for a route: the entry under the route's path
  key and lower-cased method.
\<close>

definition route_operation :: "obj \<Rightarrow> obj \<Rightarrow> jv" where
  "route_operation paths node =
     (case (get node ''url'', get node ''method'') of
        (Str u, Str m) \<Rightarrow> prop_of (get paths (endPoint u)) (toLowerCase m)
      | _ \<Rightarrow> Undefined)"

text \<open>
  The summary as the specification words it: the documentation record's summary if
  defined, else the documentation record's \<^verbatim>\<open>name\<close>, else the upper-cased method, a space
  and the path.
\<close>

definition claimed_summary :: "jv \<Rightarrow> string \<Rightarrow> string \<Rightarrow> jv" where
  "claimed_summary record method path =
     (if prop_of record ''summary'' \<noteq> Undefined then prop_of record ''summary''
      else if prop_of record ''name'' \<noteq> Undefined then prop_of record ''name''
      else Str (toUpperCase method @ '' '' @ path))"

text \<open>
  The style table as the specification words it: csv to simple, ssv to spaceDelimited,
  tsv and pipes to pipeDelimited, multi to form, and simple for every other format.
\<close>

definition claimed_style :: "string \<Rightarrow> string" where
  "claimed_style collectionFormat =
     (if collectionFormat = ''csv'' then ''simple''
      else if collectionFormat = ''ssv'' then ''spaceDelimited''
      else if collectionFormat = ''tsv'' then ''pipeDelimited''
      else if collectionFormat = ''pipes'' then ''pipeDelimited''
      else if collectionFormat = ''multi'' then ''form''
      else ''simple'')"

text \<open>
  The values that the constant \<^verbatim>\<open>DEFAULT_TEMPLATE\<close> can have when a request arrives: its
  initial value, and what any earlier request has left. After the first request that
  reaches the cleanup pass with the default components, this is \<open>pruned_template\<close>.
\<close>

inductive template_state :: "jv \<Rightarrow> bool" where
  initial: "template_state DEFAULT_TEMPLATE"
| request: "template_state dt \<Longrightarrow> template_state (template_after dt r)"

definition pruned_template :: jv where
  "pruned_template = Obj
     [(''openapi'', Str ''3.0.0''),
      (''info'', Obj
         [(''title'', Str ''My Node-RED API''),
          (''version'', Str ''1.0.0''),
          (''description'', Str ''A sample API'')]),
      (''servers'', Arr
         [Obj [(''url'', Str ''http://localhost:1880/''),
               (''description'', Str ''Local server'')]]),
      (''paths'', Obj []),
      (''components'', Obj []),
      (''tags'', Arr [])]"

text \<open>The document that is left when nothing is documented and nothing is configured.\<close>

definition minimal_document :: jv where
  "minimal_document = Obj
     (filter (\<lambda>kv. fst kv \<in> {''openapi'', ''info'', ''servers''}) (own_entries DEFAULT_TEMPLATE)
      @ [(''paths'', Obj [])])"





text \<open>
  The objects that the handler assigns into. \<open>plain\<close> is an object as an object literal
  of the handler makes it, without an own property \<^verbatim>\<open>__proto__\<close>; \<open>fresh\<close> is such an
  object after assignments of plain objects, one of which may have replaced its
  prototype; \<open>assignable\<close> is any object of the two kinds.
\<close>

definition assignable :: "jv \<Rightarrow> bool" where
  "assignable v = (case v of Obj kvs \<Rightarrow> True | Derived p kvs \<Rightarrow> True | _ \<Rightarrow> False)"

definition plain :: "jv \<Rightarrow> bool" where
  "plain v = (case v of Obj kvs \<Rightarrow> ''__proto__'' \<notin> fst ` set kvs | _ \<Rightarrow> False)"

definition fresh :: "jv \<Rightarrow> bool" where
  "fresh v =
     (case v of
        Obj kvs \<Rightarrow> ''__proto__'' \<notin> fst ` set kvs
      | Derived p kvs \<Rightarrow> ''__proto__'' \<notin> fst ` set kvs \<and> plain p
      | _ \<Rightarrow> False)"












section \<open>Example data\<close>

text \<open>
  Three documented routes and their documentation nodes: the route of the specification's
  example; a named route whose documentation node has a name of its own and nothing
  else; a route whose documentation node has an empty summary and a response with an
  empty description.
\<close>

definition users_doc :: jv where
  "users_doc = Obj [(''responses'', Obj [(''200'', Obj [(''description'', Str ''ok'')])])]"

definition users_node :: obj where
  "users_node =
     [(''type'', Str ''http in''), (''method'', Str ''get''), (''url'', Str ''/users/:id''),
      (''swaggerDoc'', Str ''doc1'')]"

definition named_doc :: jv where
  "named_doc = Obj [(''name'', Str ''Doc'')]"

definition named_node :: obj where
  "named_node =
     [(''type'', Str ''http in''), (''name'', Str ''Route''), (''method'', Str ''get''),
      (''url'', Str ''/users''), (''swaggerDoc'', Str ''doc2'')]"

definition quiet_doc :: jv where
  "quiet_doc = Obj
     [(''summary'', Str []),
      (''responses'', Obj [(''404'', Obj [(''description'', Str [])])])]"

definition quiet_node :: obj where
  "quiet_node =
     [(''type'', Str ''http in''), (''method'', Str ''DELETE''), (''url'', Str ''items/:id/''),
      (''swaggerDoc'', Str ''doc3'')]"

definition example_getNode :: "jv \<Rightarrow> jv" where
  "example_getNode id' =
     (if id' = Str ''doc1'' then users_doc
      else if id' = Str ''doc2'' then named_doc
      else if id' = Str ''doc3'' then quiet_doc
      else Null)"




text \<open>
  Two parameter specifications, the second with a \<^verbatim>\<open>format\<close>; a document for the cleanup
  pass; and a document whose component categories are not mappings.
\<close>

definition tags_param :: jv where
  "tags_param = Obj
     [(''name'', Str ''tags''), (''in'', Str ''query''), (''type'', Str ''array''),
      (''items'', Obj [(''type'', Str ''string'')]), (''collectionFormat'', Str ''multi'')]"

definition format_param :: jv where
  "format_param = Obj
     [(''name'', Str ''ids''), (''in'', Str ''query''), (''type'', Str ''array''),
      (''format'', Str ''uuid''),
      (''items'', Obj [(''type'', Str ''string'')]), (''collectionFormat'', Str ''multi'')]"

definition example_spec :: obj where
  "example_spec =
     [(''openapi'', Str ''3.0.0''),
      (''paths'', Obj []),
      (''components'', Obj
         [(''schemas'', Obj [(''User'', Obj [(''type'', Str ''object'')])]),
          (''responses'', Obj []),
          (''securitySchemes'', Obj [])]),
      (''tags'', Arr [])]"

definition odd_spec :: obj where
  "odd_spec =
     [(''openapi'', Str ''3.0.0''),
      (''paths'', Obj []),
      (''components'', Obj
         [(''schemas'', Bool True),
          (''responses'', Num 5),
          (''parameters'', Arr []),
          (''securitySchemes'', Obj [(''key'', Obj [(''type'', Str ''apiKey'')])])])]"

text \<open>
  Four registries: one without a documented route; one with the base-path prefix
  \<^verbatim>\<open>/api\<close> and no node; one whose second documented route has no \<^verbatim>\<open>url\<close>, so that the
  callback throws there; one with two documented routes.
\<close>

definition plain_red :: red where
  "plain_red =
     \<lparr>settings = [],
      nodes = [[(''type'', Str ''http in''), (''method'', Str ''get''), (''url'', Str ''/health'')],
               [(''type'', Str ''inject'')]],
      getNode = example_getNode\<rparr>"

definition prefixed_red :: red where
  "prefixed_red =
     \<lparr>settings = [(''httpNodeRoot'', Str ''/api'')], nodes = [], getNode = example_getNode\<rparr>"




chapter \<open>Properties\<close>

section \<open>Path conversion\<close>





lemma brace_params_skip: "c \<noteq> CHR ''{'' \<Longrightarrow> brace_params (c # cs) = brace_params cs"
  by simp
















text \<open>
  Claim C2, as amended. \<^verbatim>\<open>stripTerminalSlash\<close> removes one slash, so the normalisation
  \<^verbatim>\<open>stripTerminalSlash(ensureLeadingSlash(p))\<close> gives the same result when applied twice
  exactly for the strings \<open>p\<close> that do not have three or more characters and end in two
  slashes.
\<close>

theorem normalise_twice:
  "stripTerminalSlash (ensureLeadingSlash (stripTerminalSlash (ensureLeadingSlash p)))
     = stripTerminalSlash (ensureLeadingSlash p)
   \<longleftrightarrow> \<not> (3 \<le> length p \<and> drop (length p - 2) p = ''//'')"
proof (cases p rule: rev_cases)
  case Nil
  then show ?thesis by (simp add: ensureLeadingSlash_def stripTerminalSlash_def)
next
  case (snoc ys a)
  note p = this
  show ?thesis
  proof (cases ys rule: rev_cases)
    case Nil
    then show ?thesis using p by (auto simp: ensureLeadingSlash_def stripTerminalSlash_def)
  next
    case (snoc zs b)
    then show ?thesis using p
      by (cases zs) (auto simp: ensureLeadingSlash_def stripTerminalSlash_def butlast_append)
  qed
qed

theorem normalise_twice_witness:
  "\<not> (3 \<le> length ''users/'' \<and> drop (length ''users/'' - 2) ''users/'' = ''//'')
   \<and> stripTerminalSlash (ensureLeadingSlash (stripTerminalSlash (ensureLeadingSlash ''users/'')))
       = stripTerminalSlash (ensureLeadingSlash ''users/'')"
  using normalise_twice [of "''users/''"] by simp

text \<open>
  Claim C2 as it is stated fails on \<^verbatim>\<open>/a//\<close>: one application gives \<^verbatim>\<open>/a/\<close>, the
  second gives \<^verbatim>\<open>/a\<close>.
\<close>

theorem normalise_twice_counterexample:
  "stripTerminalSlash (ensureLeadingSlash ''/a//'') = ''/a/''
   \<and> stripTerminalSlash (ensureLeadingSlash (stripTerminalSlash (ensureLeadingSlash ''/a//'')))
       = ''/a''
   \<and> stripTerminalSlash (ensureLeadingSlash (stripTerminalSlash (ensureLeadingSlash ''/a//'')))
       \<noteq> stripTerminalSlash (ensureLeadingSlash ''/a//'')"
  by (simp add: ensureLeadingSlash_def stripTerminalSlash_def)

section \<open>Reading and writing properties\<close>

lemma map_of_update:
  "map_of (map (\<lambda>(k', v'). if k' = k then (k', v) else (k', v')) kvs) k' =
     (if k' = k then map_option (\<lambda>_. v) (map_of kvs k) else map_of kvs k')"
  by (induction kvs) auto

lemma map_of_insert_middle:
  "k \<notin> fst ` set kvs \<Longrightarrow>
   map_of (takeWhile P kvs @ (k, v) # dropWhile P kvs) k' = (if k' = k then Some v else map_of kvs k')"
proof (induction kvs)
  case Nil
  then show ?case by simp
next
  case (Cons a kvs)
  then show ?case by (cases a) auto
qed

lemma map_of_snoc:
  "k \<notin> fst ` set kvs \<Longrightarrow> map_of (kvs @ [(k, v)]) k' = (if k' = k then Some v else map_of kvs k')"
  by (induction kvs) auto

lemma get_set_prop: "get (set_prop k v kvs) k' = (if k' = k then v else get kvs k')"
proof (cases "k \<in> fst ` set kvs")
  case True
  then obtain x where "map_of kvs k = Some x"
    using map_of_eq_None_iff [of kvs k] by (cases "map_of kvs k") auto
  then show ?thesis using True by (simp add: get_def set_prop_def map_of_update)
next
  case False
  show ?thesis
  proof (cases "array_index k")
    case None
    then show ?thesis
      using False by (simp add: get_def set_prop_def map_of_snoc [OF False] del: map_of_append)
  next
    case (Some i)
    then show ?thesis
      using False
      by (simp add: get_def set_prop_def map_of_insert_middle [OF False] del: map_of_append)
  qed
qed

lemma set_insert_middle: "set (takeWhile P xs @ x # dropWhile P xs) = insert x (set xs)"
proof -
  have "set (takeWhile P xs) \<union> set (dropWhile P xs) = set xs"
    unfolding set_append [symmetric] by simp
  then show ?thesis by auto
qed

lemma keys_update:
  "map fst (map (\<lambda>(k', v'). if k' = k then (k', v) else (k', v')) kvs) = map fst kvs"
  by (induction kvs) auto

lemma keys_set_prop: "fst ` set (set_prop k v kvs) = insert k (fst ` set kvs)"
proof (cases "k \<in> fst ` set kvs")
  case True
  have "fst ` set (map (\<lambda>(k', v'). if k' = k then (k', v) else (k', v')) kvs) = fst ` set kvs"
    using keys_update [of k v kvs] by (metis set_map)
  then show ?thesis using True by (simp add: set_prop_def insert_absorb)
next
  case False
  show ?thesis
  proof (cases "array_index k")
    case None
    then show ?thesis using False by (simp add: set_prop_def)
  next
    case (Some i)
    then show ?thesis using False by (simp add: set_prop_def set_insert_middle del: set_append)
  qed
qed

lemma get_delete_prop: "get (delete_prop k kvs) k' = (if k' = k then Undefined else get kvs k')"
proof -
  have "map_of (filter (\<lambda>kv. fst kv \<noteq> k) kvs) k' = (if k' = k then None else map_of kvs k')"
    by (induction kvs) auto
  then show ?thesis by (simp add: get_def delete_prop_def)
qed

lemma keys_delete_prop: "fst ` set (delete_prop k kvs) = fst ` set kvs - {k}"
  by (auto simp: delete_prop_def image_iff)

lemma get_absent: "k \<notin> fst ` set kvs \<Longrightarrow> get kvs k = Undefined"
  using map_of_eq_None_iff [of kvs k] by (simp add: get_def)

lemma prop_of_Obj: "prop_of (Obj kvs) k = get kvs k"
  by simp

lemma get_filter_keys:
  "get (filter (\<lambda>kv. Q (fst kv)) kvs) k = (if Q k then get kvs k else Undefined)"
proof -
  have "map_of (filter (\<lambda>kv. Q (fst kv)) kvs) k = (if Q k then map_of kvs k else None)"
    by (induction kvs) auto
  then show ?thesis by (simp add: get_def)
qed

lemma keys_set_prop_present:
  "k \<in> fst ` set kvs \<Longrightarrow> map fst (set_prop k v kvs) = map fst kvs"
proof -
  assume "k \<in> fst ` set kvs"
  then have "set_prop k v kvs = map (\<lambda>(k', v'). if k' = k then (k', v) else (k', v')) kvs"
    by (simp add: set_prop_def)
  then show ?thesis by (simp only: keys_update)
qed

lemma keys_delete_prop_list: "map fst (delete_prop k kvs) = filter (\<lambda>x. x \<noteq> k) (map fst kvs)"
  by (simp add: delete_prop_def filter_map comp_def)

lemma truthy_present: "truthy (get kvs k) \<Longrightarrow> k \<in> fst ` set kvs"
  by (cases "k \<in> fst ` set kvs") (simp_all add: get_absent)

text \<open>Unfolding sets for the evaluation of the model on concrete data.\<close>

lemmas value_defs =
  get_def own_keys_def set_prop_def delete_prop_def spread_into_def assign_prop_def is_object_def
  array_index_def is_digit_def dec_value_def before_index_def code_def
  or_else_def dflt_def nullish_def indexed_def

lemmas path_defs =
  endPoint_def ensureLeadingSlash_def stripTerminalSlash_def convToSwaggerPath_def
  is_word_def toUpperCase_def toLowerCase_def char_of_def bit_0

lemmas operation_defs =
  build_operation_def operation_summary_def operation_responses_def response_entry_def
  successful_response_def csvStrToArray_def paramDef_def process_node_def Let_def

section \<open>Assignments\<close>

text \<open>
  A path key starts with a slash, so it is never \<^verbatim>\<open>__proto__\<close> and the assignment of
  line 91 defines an own property of the paths object.
\<close>

lemma endPoint_slash: "take 1 (endPoint u) = ''/''"
proof -
  let ?x = "ensureLeadingSlash (replace_colons u)"
  have x: "take 1 ?x = ''/''"
    by (simp add: ensureLeadingSlash_def)
  have "take 1 (stripTerminalSlash ?x) = take 1 ?x"
  proof (cases ?x rule: rev_cases)
    case Nil
    then show ?thesis by (simp add: stripTerminalSlash_def)
  next
    case (snoc ys c)
    then show ?thesis by (cases ys) (simp_all add: stripTerminalSlash_def)
  qed
  with x show ?thesis by (simp add: endPoint_def)
qed

lemma endPoint_not_proto: "endPoint u \<noteq> ''__proto__''"
  using endPoint_slash [of u] by auto





lemma map_of_None_keys: "map_of kvs k = None \<longleftrightarrow> k \<notin> fst ` set kvs"
  by (simp add: map_of_eq_None_iff)

lemma plain_facts: "plain v \<Longrightarrow> is_object v \<and> chain_data v ''__proto__'' = None \<and> rooted v"
  by (cases v) (simp_all add: plain_def is_object_def map_of_None_keys)

lemma assign_prop_read:
  assumes "assign_prop k v t = Some t'" and "plain v"
  shows "prop_of t' k = v"
proof -
  from plain_facts [OF assms(2)] have v: "is_object v" "chain_data v ''__proto__'' = None" "rooted v"
    by simp_all
  show ?thesis
  proof (cases t)
    case (Obj kvs)
    then show ?thesis
      using assms(1) v by (auto simp: assign_prop_def get_set_prop keys_set_prop split: if_splits)
  next
    case (Derived p kvs)
    then show ?thesis
      using assms(1) v
      by (auto simp: assign_prop_def get_set_prop keys_set_prop map_of_None_keys
            split: if_splits option.splits)
  qed (use assms(1) in \<open>simp_all add: assign_prop_def\<close>)
qed

lemma plain_entry: "plain (response_entry d)"
  by (auto simp: plain_def response_entry_def)

lemma plain_successful: "plain successful_response"
  by (simp add: plain_def successful_response_def)

lemma fresh_proto:
  assumes "fresh t"
  shows "prop_of t ''__proto__'' = (case t of Derived p kvs \<Rightarrow> p | _ \<Rightarrow> Undefined)"
proof (cases t)
  case (Derived p kvs)
  with assms have p: "plain p" and k: "''__proto__'' \<notin> fst ` set kvs"
    by (simp_all add: fresh_def)
  from plain_facts [OF p] k Derived show ?thesis by simp
qed (use assms in \<open>simp_all add: fresh_def get_absent\<close>)

lemma fresh_assign:
  assumes "fresh t" and "plain v"
  shows "\<exists>t'. assign_prop k v t = Some t' \<and> fresh t'
           \<and> own_entries t' = (if k = ''__proto__'' then own_entries t else set_prop k v (own_entries t))
           \<and> prop_of t' ''__proto__'' = (if k = ''__proto__'' then v else prop_of t ''__proto__'')"
proof -
  from plain_facts [OF assms(2)] have v: "is_object v" "chain_data v ''__proto__'' = None" "rooted v"
    by simp_all
  show ?thesis
  proof (cases t)
    case (Obj kvs)
    then show ?thesis
      using assms v
      by (auto simp: assign_prop_def fresh_def keys_set_prop get_set_prop get_absent)
  next
    case (Derived p kvs)
    with assms(1) have p: "plain p" and k: "''__proto__'' \<notin> fst ` set kvs"
      by (simp_all add: fresh_def)
    from plain_facts [OF p] have pf: "chain_data p ''__proto__'' = None" "rooted p"
      by simp_all
    from k have m: "map_of kvs ''__proto__'' = None"
      by (simp add: map_of_None_keys)
    show ?thesis
      using Derived assms v p k pf m
      by (auto simp: assign_prop_def fresh_def keys_set_prop get_set_prop)
  qed (use assms(1) in \<open>simp_all add: fresh_def\<close>)
qed

lemma fresh_own:
  "fresh x \<Longrightarrow> k \<in> fst ` set (own_entries x) \<Longrightarrow> prop_of x k = get (own_entries x) k"
  by (cases x) (simp_all add: fresh_def)

lemma fresh_assignable: "fresh x \<Longrightarrow> assignable x"
  by (cases x) (simp_all add: fresh_def assignable_def)

section \<open>Operations\<close>

lemma add_responses_result:
  "add_responses r ks acc = Some res \<Longrightarrow> fresh acc \<Longrightarrow>
   fresh res
   \<and> fst ` set (own_entries res) = fst ` set (own_entries acc) \<union> (set ks - {''__proto__''})
   \<and> (\<forall>k. k \<noteq> ''__proto__'' \<longrightarrow>
         get (own_entries res) k =
           (if k \<in> set ks then response_entry (prop_of r k) else get (own_entries acc) k))
   \<and> prop_of res ''__proto__'' =
       (if ''__proto__'' \<in> set ks then response_entry (prop_of r ''__proto__'')
        else prop_of acc ''__proto__'')"
proof (induction ks arbitrary: acc)
  case Nil
  then show ?case by simp
next
  case (Cons status rest)
  from fresh_assign [OF Cons.prems(2) plain_entry, of status "prop_of r status"]
  obtain acc' where a: "assign_prop status (response_entry (prop_of r status)) acc = Some acc'"
    and f: "fresh acc'"
    and o: "own_entries acc' = (if status = ''__proto__'' then own_entries acc
              else set_prop status (response_entry (prop_of r status)) (own_entries acc))"
    and p: "prop_of acc' ''__proto__'' = (if status = ''__proto__''
              then response_entry (prop_of r status) else prop_of acc ''__proto__'')"
    by blast
  from Cons.prems(1) a have "add_responses r rest acc' = Some res"
    by (simp add: Let_def split: if_splits)
  from Cons.IH [OF this f] show ?case
    unfolding o p by (auto simp: keys_set_prop get_set_prop)
qed


lemma fresh_empty: "fresh (Obj [])"
  by (simp add: fresh_def)

lemma operation_responses_fallback:
  "\<not> (truthy r \<and> typeof r = ''object'' \<and> own_keys r \<noteq> []) \<Longrightarrow>
   operation_responses r = Some (Obj [(''200'', Obj [(''description'', Str ''Successful response'')])])"
  by (auto simp: operation_responses_def successful_response_def assign_prop_def own_keys_def
        set_prop_def array_index_def)


lemma operation_responses_processed:
  assumes "truthy r" "typeof r = ''object''"
    and "operation_responses r = Some res"
  shows "(\<forall>k\<in>set (own_keys r). prop_of res k = response_entry (prop_of r k))
         \<and> (set (own_keys r) \<subseteq> {''__proto__''} \<longrightarrow>
              own_entries res = [(''200'', Obj [(''description'', Str ''Successful response'')])])
         \<and> (\<not> set (own_keys r) \<subseteq> {''__proto__''} \<longrightarrow>
              set (own_keys res) = set (own_keys r) - {''__proto__''}
              \<and> (\<forall>k\<in>set (own_keys res). get (own_entries res) k = response_entry (prop_of r k)))"
proof -
  from assms obtain rs where rs: "add_responses r (own_keys r) (Obj []) = Some rs"
    and res: "(if own_keys rs = [] then assign_prop ''200'' successful_response rs else Some rs)
                = Some res"
    by (auto simp: operation_responses_def split: option.splits)
  from add_responses_result [OF rs fresh_empty] have f: "fresh rs"
    and k: "fst ` set (own_entries rs) = set (own_keys r) - {''__proto__''}"
    and g: "\<forall>k. k \<noteq> ''__proto__'' \<longrightarrow> get (own_entries rs) k =
              (if k \<in> set (own_keys r) then response_entry (prop_of r k) else Undefined)"
    and p: "''__proto__'' \<in> set (own_keys r) \<longrightarrow>
              prop_of rs ''__proto__'' = response_entry (prop_of r ''__proto__'')"
    by (simp_all add: get_def)
  show ?thesis
  proof (cases "own_keys rs = []")
    case True
    then have e: "own_entries rs = []" by (simp add: own_keys_def)
    with k have sub: "set (own_keys r) \<subseteq> {''__proto__''}" by auto
    from fresh_assign [OF f plain_successful, of "''200''"] res True
    have o: "own_entries res = set_prop ''200'' successful_response (own_entries rs)"
      and q: "prop_of res ''__proto__'' = prop_of rs ''__proto__''"
      by auto
    from o e have o': "own_entries res = [(''200'', Obj [(''description'', Str ''Successful response'')])]"
      by (simp add: set_prop_def array_index_def successful_response_def)
    from sub p q have "\<forall>k\<in>set (own_keys r). prop_of res k = response_entry (prop_of r k)"
      by auto
    with sub o' show ?thesis by simp
  next
    case False
    with res have eq: "res = rs" by simp
    from False have "fst ` set (own_entries rs) \<noteq> {}" by (auto simp: own_keys_def)
    with k have nsub: "\<not> set (own_keys r) \<subseteq> {''__proto__''}" by auto
    have "prop_of rs k' = response_entry (prop_of r k')" if k': "k' \<in> set (own_keys r)" for k'
    proof (cases "k' = ''__proto__''")
      case True
      with p k' show ?thesis by simp
    next
      case False
      with k k' have "k' \<in> fst ` set (own_entries rs)" by simp
      from fresh_own [OF f this] g False k' show ?thesis by simp
    qed
    moreover have "set (own_keys rs) = set (own_keys r) - {''__proto__''}"
      using k by (simp add: own_keys_def)
    moreover have "\<forall>k\<in>set (own_keys rs). get (own_entries rs) k = response_entry (prop_of r k)"
      using g k by (auto simp: own_keys_def)
    ultimately show ?thesis using nsub eq by simp
  qed
qed

lemma build_operation_summary:
  "build_operation name method ep ap doc = Some operation \<Longrightarrow>
   operation_summary name method ep doc = Some (prop_of operation ''summary'')"
  by (auto simp: build_operation_def Let_def get_def split: bind_splits)

lemma build_operation_responses:
  "build_operation name method ep ap doc = Some operation \<Longrightarrow>
   operation_responses (dflt (prop_of doc ''responses'') (Obj []))
     = Some (prop_of operation ''responses'')"
  by (auto simp: build_operation_def Let_def get_def split: bind_splits)

lemma build_operation_plain:
  "build_operation name method ep ap doc = Some operation \<Longrightarrow> plain operation"
  by (auto simp: build_operation_def Let_def plain_def split: bind_splits)

lemma process_node_documented:
  assumes "documented gn node" and "process_node gn ap paths node = Some paths'"
  shows "\<exists>u m. get node ''url'' = Str u \<and> get node ''method'' = Str m
           \<and> build_operation (get node ''name'') (Str m) (endPoint u) ap
                (gn (get node ''swaggerDoc'')) = Some (route_operation paths' node)"
proof -
  from assms obtain u where u: "get node ''url'' = Str u"
    by (cases "get node ''url''") (auto simp: process_node_def documented_def Let_def)
  let ?ep = "endPoint u"
  let ?p1 = "if \<not> truthy (get paths ?ep) then set_prop ?ep (Obj []) paths else paths"
  from assms u obtain operation m0 pathItem where
    op: "build_operation (get node ''name'') (get node ''method'') ?ep ap (gn (get node ''swaggerDoc'')) = Some operation"
    and m0: "(case get node ''method'' of Str m \<Rightarrow> Some (toLowerCase m) | _ \<Rightarrow> None) = Some m0"
    and a: "assign_prop m0 operation (get ?p1 ?ep) = Some pathItem"
    and r: "paths' = set_prop ?ep pathItem ?p1"
    by (auto simp: process_node_def documented_def Let_def split: bind_splits)
  from m0 obtain m where m: "get node ''method'' = Str m" "m0 = toLowerCase m"
    by (cases "get node ''method''") auto
  from r have "get paths' ?ep = pathItem"
    by (simp add: get_set_prop)
  moreover have "prop_of pathItem m0 = operation"
    using a build_operation_plain [OF op] by (rule assign_prop_read)
  ultimately have "route_operation paths' node = operation"
    using u m by (simp add: route_operation_def)
  then show ?thesis using u m op by auto
qed

lemma process_node_undocumented:
  "\<not> documented gn node \<Longrightarrow> process_node gn ap paths node = Some paths"
  by (auto simp: process_node_def documented_def Let_def)

text \<open>The example routes, processed on an empty paths object.\<close>

lemma documented_users: "documented example_getNode users_node"
  by (simp add: documented_def users_node_def example_getNode_def users_doc_def get_def)

lemma documented_named: "documented example_getNode named_node"
  by (simp add: documented_def named_node_def example_getNode_def named_doc_def get_def)

lemma documented_quiet: "documented example_getNode quiet_node"
  by (simp add: documented_def quiet_node_def example_getNode_def quiet_doc_def get_def)

lemma users_node_paths:
  "process_node example_getNode (Arr []) [] users_node =
     Some [(''/users/{id}'', Obj [(''get'', Obj
       [(''summary'', Str ''GET /users/{id}''),
        (''description'', Str []),
        (''tags'', Arr []),
        (''deprecated'', Bool False),
        (''parameters'', Arr []),
        (''responses'', Obj [(''200'', Obj [(''description'', Str ''ok'')])])])])]"
  by (simp add: users_node_def users_doc_def example_getNode_def
        operation_defs path_defs value_defs)

lemma named_node_paths:
  "process_node example_getNode (Arr []) [] named_node =
     Some [(''/users'', Obj [(''get'', Obj
       [(''summary'', Str ''Route''),
        (''description'', Str []),
        (''tags'', Arr []),
        (''deprecated'', Bool False),
        (''parameters'', Arr []),
        (''responses'', Obj [(''200'', Obj [(''description'', Str ''Successful response'')])])])])]"
  by (simp add: named_node_def named_doc_def example_getNode_def
        operation_defs path_defs value_defs)

lemma quiet_node_paths:
  "process_node example_getNode (Arr []) [] quiet_node =
     Some [(''/items/{id}'', Obj [(''delete'', Obj
       [(''summary'', Str []),
        (''description'', Str []),
        (''tags'', Arr []),
        (''deprecated'', Bool False),
        (''parameters'', Arr []),
        (''responses'', Obj [(''404'', Obj [(''description'', Str ''No description'')])])])])]"
  by (simp add: quiet_node_def quiet_doc_def example_getNode_def
        operation_defs path_defs value_defs)

text \<open>
  Claim C3, as amended. For every documented route the summary of the operation is the
  summary of the documentation node if that is defined; else the name of the route's own
  \<^verbatim>\<open>http in\<close> node if that name is truthy (defined and not empty); else the upper-cased
  method, a space and the converted path.
\<close>

theorem operation_summary_choice:
  assumes "documented gn node" and "process_node gn ap paths node = Some paths'"
  shows "\<exists>u m. get node ''url'' = Str u \<and> get node ''method'' = Str m
           \<and> prop_of (route_operation paths' node) ''summary'' =
               (if prop_of (gn (get node ''swaggerDoc'')) ''summary'' \<noteq> Undefined
                then prop_of (gn (get node ''swaggerDoc'')) ''summary''
                else if truthy (get node ''name'') then get node ''name''
                else Str (toUpperCase m @ '' '' @ endPoint u))"
proof -
  from process_node_documented [OF assms] obtain u m where
    u: "get node ''url'' = Str u" and m: "get node ''method'' = Str m"
    and b: "build_operation (get node ''name'') (Str m) (endPoint u) ap
              (gn (get node ''swaggerDoc'')) = Some (route_operation paths' node)"
    by blast
  define summary where "summary = prop_of (route_operation paths' node) ''summary''"
  then have p: "prop_of (route_operation paths' node) ''summary'' = summary"
    by simp
  have s: "operation_summary (get node ''name'') (Str m) (endPoint u) (gn (get node ''swaggerDoc''))
          = Some summary"
    unfolding summary_def using b by (rule build_operation_summary)
  from s have "summary =
      (if prop_of (gn (get node ''swaggerDoc'')) ''summary'' \<noteq> Undefined
       then prop_of (gn (get node ''swaggerDoc'')) ''summary''
       else if truthy (get node ''name'') then get node ''name''
       else Str (toUpperCase m @ '' '' @ endPoint u))"
    by (auto simp: operation_summary_def split: if_splits)
  with u m p show ?thesis by blast
qed

theorem operation_summary_choice_witness:
  "documented example_getNode users_node
   \<and> process_node example_getNode (Arr []) [] users_node \<noteq> None
   \<and> prop_of (route_operation (the (process_node example_getNode (Arr []) [] users_node))
        users_node) ''summary'' = Str ''GET /users/{id}''"
  using operation_summary_choice [OF documented_users users_node_paths] documented_users
  by (simp add: users_node_paths)
     (simp add: users_node_def users_doc_def example_getNode_def path_defs value_defs)

text \<open>
  Claim C3 as it is stated names the documentation record's \<^verbatim>\<open>name\<close>. On a route named
  \<^verbatim>\<open>Route\<close> whose documentation node is named \<^verbatim>\<open>Doc\<close> and has no summary, the handler
  emits \<^verbatim>\<open>Route\<close> where the stated rule gives \<^verbatim>\<open>Doc\<close>.
\<close>

theorem operation_summary_choice_counterexample:
  "documented example_getNode named_node
   \<and> prop_of (route_operation (the (process_node example_getNode (Arr []) [] named_node))
        named_node) ''summary'' = Str ''Route''
   \<and> claimed_summary (example_getNode (get named_node ''swaggerDoc'')) ''get''
        (endPoint ''/users'') = Str ''Doc''
   \<and> prop_of (route_operation (the (process_node example_getNode (Arr []) [] named_node))
        named_node) ''summary''
       \<noteq> claimed_summary (example_getNode (get named_node ''swaggerDoc'')) ''get''
           (endPoint ''/users'')"
  using documented_named
  by (simp add: named_node_paths)
     (simp add: route_operation_def claimed_summary_def named_node_def named_doc_def
        example_getNode_def path_defs value_defs)


text \<open>
  The responses of the operation of a documented route. When no response is processed
  they are the fallback. When a response with a status other than \<^verbatim>\<open>__proto__\<close> is
  processed, their keys are the statuses of the documentation node other than
  \<^verbatim>\<open>__proto__\<close>, each with its processed entry, and no fallback is added. When the only
  status is \<^verbatim>\<open>__proto__\<close>, their only key is the fallback.
\<close>

lemma responses_of_route:
  assumes "documented gn node" and "process_node gn ap paths node = Some paths'"
    and "responses = dflt (prop_of (gn (get node ''swaggerDoc'')) ''responses'') (Obj [])"
  shows "(\<not> (truthy responses \<and> typeof responses = ''object'' \<and> own_keys responses \<noteq> []) \<longrightarrow>
            prop_of (route_operation paths' node) ''responses''
              = Obj [(''200'', Obj [(''description'', Str ''Successful response'')])])
       \<and> (truthy responses \<and> typeof responses = ''object''
            \<and> \<not> set (own_keys responses) \<subseteq> {''__proto__''} \<longrightarrow>
            set (own_keys (prop_of (route_operation paths' node) ''responses''))
              = set (own_keys responses) - {''__proto__''}
            \<and> (\<forall>k\<in>set (own_keys responses) - {''__proto__''}.
                  get (own_entries (prop_of (route_operation paths' node) ''responses'')) k
                    = response_entry (prop_of responses k)))
       \<and> (truthy responses \<and> typeof responses = ''object''
            \<and> set (own_keys responses) \<subseteq> {''__proto__''} \<longrightarrow>
            own_entries (prop_of (route_operation paths' node) ''responses'')
              = [(''200'', Obj [(''description'', Str ''Successful response'')])])"
proof -
  from process_node_documented [OF assms(1,2)] obtain u m where
    b: "build_operation (get node ''name'') (Str m) (endPoint u) ap
              (gn (get node ''swaggerDoc'')) = Some (route_operation paths' node)"
    by blast
  define res where "res = prop_of (route_operation paths' node) ''responses''"
  from build_operation_responses [OF b] have r: "operation_responses responses = Some res"
    unfolding assms(3) res_def .
  show ?thesis
    unfolding res_def [symmetric]
  proof (intro conjI impI)
    assume "\<not> (truthy responses \<and> typeof responses = ''object'' \<and> own_keys responses \<noteq> [])"
    then have "operation_responses responses
        = Some (Obj [(''200'', Obj [(''description'', Str ''Successful response'')])])"
      by (rule operation_responses_fallback)
    with r show "res = Obj [(''200'', Obj [(''description'', Str ''Successful response'')])]"
      by simp
  next
    assume a: "truthy responses \<and> typeof responses = ''object''
               \<and> \<not> set (own_keys responses) \<subseteq> {''__proto__''}"
    with operation_responses_processed [OF _ _ r]
    show "set (own_keys res) = set (own_keys responses) - {''__proto__''}"
      by blast
    from a operation_responses_processed [OF _ _ r]
    have "set (own_keys res) = set (own_keys responses) - {''__proto__''}"
      and "\<forall>k\<in>set (own_keys res). get (own_entries res) k = response_entry (prop_of responses k)"
      by blast+
    then show "\<forall>k\<in>set (own_keys responses) - {''__proto__''}.
                  get (own_entries res) k = response_entry (prop_of responses k)"
      by simp
  next
    assume "truthy responses \<and> typeof responses = ''object''
            \<and> set (own_keys responses) \<subseteq> {''__proto__''}"
    with operation_responses_processed [OF _ _ r]
    show "own_entries res = [(''200'', Obj [(''description'', Str ''Successful response'')])]"
      by blast
  qed
qed


text \<open>
  Claim C9. The description of every processed response is chosen by truthiness: the
  description of the documentation node when it is truthy, else \<^verbatim>\<open>No description\<close>, so
  an empty description is replaced; an empty summary of the documentation node, which
  is defined, is kept.
\<close>

theorem response_description_falsy:
  assumes "documented gn node" and "process_node gn ap paths node = Some paths'"
    and "responses = dflt (prop_of (gn (get node ''swaggerDoc'')) ''responses'') (Obj [])"
    and "truthy responses" and "typeof responses = ''object''"
  shows "(\<forall>k\<in>set (own_keys responses).
            prop_of (prop_of (prop_of (route_operation paths' node) ''responses'') k) ''description''
              = (if truthy (prop_of (prop_of responses k) ''description'')
                 then prop_of (prop_of responses k) ''description''
                 else Str ''No description''))
       \<and> (\<forall>k\<in>set (own_keys responses).
            prop_of (prop_of responses k) ''description'' = Str [] \<longrightarrow>
            prop_of (prop_of (prop_of (route_operation paths' node) ''responses'') k) ''description''
              = Str ''No description'')
       \<and> (prop_of (gn (get node ''swaggerDoc'')) ''summary'' = Str [] \<longrightarrow>
            prop_of (route_operation paths' node) ''summary'' = Str [])"
proof -
  from process_node_documented [OF assms(1,2)] obtain u m where
    b: "build_operation (get node ''name'') (Str m) (endPoint u) ap
              (gn (get node ''swaggerDoc'')) = Some (route_operation paths' node)"
    by blast
  from build_operation_responses [OF b]
  have r: "operation_responses responses
             = Some (prop_of (route_operation paths' node) ''responses'')"
    unfolding assms(3) .
  define summary where "summary = prop_of (route_operation paths' node) ''summary''"
  then have ps: "prop_of (route_operation paths' node) ''summary'' = summary"
    by simp
  have s: "operation_summary (get node ''name'') (Str m) (endPoint u) (gn (get node ''swaggerDoc''))
          = Some summary"
    unfolding summary_def using b by (rule build_operation_summary)
  have d: "prop_of (prop_of (prop_of (route_operation paths' node) ''responses'') k) ''description''
              = (if truthy (prop_of (prop_of responses k) ''description'')
                 then prop_of (prop_of responses k) ''description''
                 else Str ''No description'')" if k: "k \<in> set (own_keys responses)" for k
  proof -
    from operation_responses_processed [OF assms(4,5) r] k
    have "prop_of (prop_of (route_operation paths' node) ''responses'') k
            = response_entry (prop_of responses k)"
      by blast
    then show ?thesis
      by (simp add: response_entry_def get_def or_else_def)
  qed
  have e: "prop_of (route_operation paths' node) ''summary'' = Str []"
    if "prop_of (gn (get node ''swaggerDoc'')) ''summary'' = Str []"
    using that s ps by (simp add: operation_summary_def)
  from d e show ?thesis by simp
qed

theorem response_description_falsy_witness:
  "documented example_getNode quiet_node
   \<and> process_node example_getNode (Arr []) [] quiet_node \<noteq> None
   \<and> prop_of (example_getNode (get quiet_node ''swaggerDoc'')) ''summary'' = Str []
   \<and> prop_of (prop_of (prop_of (example_getNode (get quiet_node ''swaggerDoc'')) ''responses'')
        ''404'') ''description'' = Str []
   \<and> prop_of (prop_of (prop_of
        (route_operation (the (process_node example_getNode (Arr []) [] quiet_node)) quiet_node)
        ''responses'') ''404'') ''description'' = Str ''No description''
   \<and> prop_of (route_operation (the (process_node example_getNode (Arr []) [] quiet_node))
        quiet_node) ''summary'' = Str []"
proof -
  have r: "dflt (prop_of (example_getNode (get quiet_node ''swaggerDoc'')) ''responses'') (Obj [])
        = Obj [(''404'', Obj [(''description'', Str [])])]"
    by (simp add: quiet_node_def quiet_doc_def example_getNode_def value_defs)
  have s: "prop_of (example_getNode (get quiet_node ''swaggerDoc'')) ''summary'' = Str []"
    by (simp add: quiet_node_def quiet_doc_def example_getNode_def value_defs)
  have d: "prop_of (prop_of (prop_of (example_getNode (get quiet_node ''swaggerDoc'')) ''responses'')
        ''404'') ''description'' = Str []"
    by (simp add: quiet_node_def quiet_doc_def example_getNode_def value_defs)
  have k: "''404'' \<in> set (own_keys (Obj [(''404'', Obj [(''description'', Str [])])]))"
    by (simp add: own_keys_def)
  from response_description_falsy [OF documented_quiet quiet_node_paths r [symmetric]]
  show ?thesis
    using s d k documented_quiet
    by (simp add: quiet_node_paths r get_def)
qed

section \<open>Parameters\<close>

lemma getStyle_known:
  "s \<notin> set object_prototype_members \<Longrightarrow>
   getStyleFromCollectionFormat (Str s) = Some (Str (claimed_style s))"
  by (simp add: getStyleFromCollectionFormat_def formatMap_lookup_def formatMap_def
        claimed_style_def or_else_def)

text \<open>
  Claim C5, as amended. For a parameter without explicit schema, of type \<^verbatim>\<open>array\<close>, with
  a non-empty string as collection format that is not the name of a member inherited
  from \<^verbatim>\<open>Object.prototype\<close>: the style is given by the table of the specification, with
  \<^verbatim>\<open>simple\<close> for the other formats; \<^verbatim>\<open>explode\<close> is true exactly for \<^verbatim>\<open>multi\<close>; the schema
  holds the type, then the format if the parameter has one, then the items if it has
  them. With items \<^verbatim>\<open>{type: "string"}\<close>, format \<^verbatim>\<open>multi\<close> and no \<^verbatim>\<open>format\<close> field this is
  the schema \<^verbatim>\<open>{type: "array", items: {type: "string"}}\<close>, style \<^verbatim>\<open>form\<close>, explode true.
\<close>

theorem paramDef_array_style:
  assumes "\<not> truthy (prop_of param ''schema'')"
    and "prop_of param ''type'' = Str ''array''"
    and "prop_of param ''collectionFormat'' = Str cf" and "cf \<noteq> []"
    and "cf \<notin> set object_prototype_members"
  shows "\<exists>p. paramDef param = Some (Obj p)
           \<and> get p ''style'' = Str (claimed_style cf)
           \<and> get p ''explode'' = Bool (cf = ''multi'')
           \<and> get p ''schema'' = Obj
               ([(''type'', Str ''array'')]
                @ (if truthy (prop_of param ''format'')
                   then [(''format'', prop_of param ''format'')] else [])
                @ (if truthy (prop_of param ''items'')
                   then [(''items'', prop_of param ''items'')] else []))"
proof -
  from assms(2) have "\<not> nullish param"
    by (auto simp: nullish_def get_def)
  then show ?thesis
    using assms by (simp add: paramDef_def Let_def getStyle_known get_def)
qed

theorem paramDef_array_style_witness:
  "\<not> truthy (prop_of tags_param ''schema'')
   \<and> prop_of tags_param ''type'' = Str ''array''
   \<and> prop_of tags_param ''items'' = Obj [(''type'', Str ''string'')]
   \<and> prop_of tags_param ''collectionFormat'' = Str ''multi''
   \<and> ''multi'' \<notin> set object_prototype_members
   \<and> prop_of (the (paramDef tags_param)) ''schema''
       = Obj [(''type'', Str ''array''), (''items'', Obj [(''type'', Str ''string'')])]
   \<and> prop_of (the (paramDef tags_param)) ''style'' = Str ''form''
   \<and> prop_of (the (paramDef tags_param)) ''explode'' = Bool True"
proof -
  have h: "\<not> truthy (prop_of tags_param ''schema'')"
    "prop_of tags_param ''type'' = Str ''array''"
    "prop_of tags_param ''collectionFormat'' = Str ''multi''"
    "''multi'' \<noteq> []"
    "''multi'' \<notin> set object_prototype_members"
    "prop_of tags_param ''items'' = Obj [(''type'', Str ''string'')]"
    "\<not> truthy (prop_of tags_param ''format'')"
    by (simp_all add: tags_param_def get_def object_prototype_members_def)
  from paramDef_array_style [OF h(1-5)] h show ?thesis
    by (auto simp: prop_of_Obj claimed_style_def)
qed

text \<open>
  Claim C5 as it is stated fails for a parameter that also has a \<^verbatim>\<open>format\<close>: the format
  is copied into the schema.
\<close>

theorem paramDef_array_style_counterexample:
  "\<not> truthy (prop_of format_param ''schema'')
   \<and> prop_of format_param ''type'' = Str ''array''
   \<and> prop_of format_param ''items'' = Obj [(''type'', Str ''string'')]
   \<and> prop_of format_param ''collectionFormat'' = Str ''multi''
   \<and> prop_of (the (paramDef format_param)) ''schema''
       = Obj [(''type'', Str ''array''), (''format'', Str ''uuid''),
              (''items'', Obj [(''type'', Str ''string'')])]
   \<and> prop_of (the (paramDef format_param)) ''schema''
       \<noteq> Obj [(''type'', Str ''array''), (''items'', Obj [(''type'', Str ''string'')])]"
  by (simp add: format_param_def paramDef_def getStyleFromCollectionFormat_def
        formatMap_lookup_def formatMap_def Let_def value_defs)

text \<open>
  The table lookup also finds what the object literal inherits, so a format named like
  a member of \<^verbatim>\<open>Object.prototype\<close> does not fall back to \<^verbatim>\<open>simple\<close>.
\<close>

lemma getStyle_inherited:
  "getStyleFromCollectionFormat (Str ''constructor'') = Some (Native ''constructor'')"
  by (simp add: getStyleFromCollectionFormat_def formatMap_lookup_def formatMap_def
        object_prototype_members_def or_else_def)

section \<open>The cleanup pass\<close>

lemma foldl_prune_category:
  "distinct ks \<Longrightarrow>
   foldl prune_category kvs ks =
     filter (\<lambda>kv. \<not> (fst kv \<in> set ks \<and> truthy (get kvs (fst kv)) \<and> own_keys (get kvs (fst kv)) = [])) kvs"
proof (induction ks rule: rev_induct)
  case Nil
  then show ?case by simp
next
  case (snoc k ks)
  let ?E = "\<lambda>x. truthy (get kvs x) \<and> own_keys (get kvs x) = []"
  let ?P = "\<lambda>x. \<not> (x \<in> set ks \<and> ?E x)"
  have ih: "foldl prune_category kvs ks = filter (\<lambda>kv. ?P (fst kv)) kvs"
    using snoc by simp
  have k: "k \<notin> set ks" using snoc.prems by simp
  have g: "get (filter (\<lambda>kv. ?P (fst kv)) kvs) k = get kvs k"
    using k get_filter_keys [of ?P kvs k] by simp
  have "foldl prune_category kvs (ks @ [k]) = prune_category (filter (\<lambda>kv. ?P (fst kv)) kvs) k"
    by (simp add: ih)
  also have "\<dots> = filter (\<lambda>kv. \<not> (fst kv \<in> set (ks @ [k]) \<and> ?E (fst kv))) kvs"
  proof (cases "?E k")
    case True
    then show ?thesis
      unfolding prune_category_def g delete_prop_def
      by (auto intro!: filter_cong)
  next
    case False
    then show ?thesis
      unfolding prune_category_def g
      by (auto intro!: filter_cong)
  qed
  finally show ?case .
qed

lemma prune_components_Obj:
  "prune_components (Obj kvs) =
     Obj (filter (\<lambda>kv. \<not> (fst kv \<in> set categories \<and> truthy (get kvs (fst kv))
                              \<and> own_keys (get kvs (fst kv)) = [])) kvs)"
proof -
  have "distinct categories" by (simp add: categories_def)
  then show ?thesis by (simp add: prune_components_def foldl_prune_category)
qed

lemma prune_components_other: "\<forall>kvs. c \<noteq> Obj kvs \<Longrightarrow> prune_components c = c"
  by (cases c) (auto simp: prune_components_def)

lemma cleanup_get_other:
  "k \<noteq> ''components'' \<Longrightarrow> k \<noteq> ''tags'' \<Longrightarrow> get (cleanupOpenAPISpec spec) k = get spec k"
  by (simp add: cleanupOpenAPISpec_def Let_def get_set_prop get_delete_prop)

lemma cleanup_get_tags:
  "get (cleanupOpenAPISpec spec) ''tags'' =
     (if get spec ''tags'' = Arr [] then Undefined else get spec ''tags'')"
  by (simp add: cleanupOpenAPISpec_def Let_def get_set_prop get_delete_prop)

lemma cleanup_get_components:
  "get (cleanupOpenAPISpec spec) ''components'' =
     (if truthy (get spec ''components'')
      then (if own_keys (prune_components (get spec ''components'')) = [] then Undefined
            else prune_components (get spec ''components''))
      else get spec ''components'')"
  by (simp add: cleanupOpenAPISpec_def Let_def get_set_prop get_delete_prop)

lemma cleanup_keys:
  "map fst (cleanupOpenAPISpec spec) =
     filter (\<lambda>k. \<not> (k = ''components'' \<and> truthy (get spec ''components'')
                       \<and> own_keys (prune_components (get spec ''components'')) = [])
                \<and> \<not> (k = ''tags'' \<and> get spec ''tags'' = Arr []))
       (map fst spec)"
proof -
  have f: "filter (\<lambda>k. True) xs = xs" for xs :: "string list" by simp
  show ?thesis
    by (auto simp: cleanupOpenAPISpec_def Let_def get_set_prop get_delete_prop
          keys_set_prop_present truthy_present keys_delete_prop_list
          intro!: filter_cong filter_id_conv [THEN iffD2, symmetric])
qed

text \<open>
  Claim C10, as amended. The cleanup pass only deletes keys. The keys of the result are
  the keys of the document in their order, without \<^verbatim>\<open>components\<close> when that is truthy and
  left without keys, and without \<^verbatim>\<open>tags\<close> when that is the empty array. Every other
  property is unchanged. The components object loses exactly those of the four
  categories that are truthy and have no keys: an empty mapping, and equally an empty
  array, \<^verbatim>\<open>true\<close> or a number other than zero. A category with a key, a falsy category
  and every other property of the components stay as they are.
\<close>

theorem cleanup_only_deletes:
  "map fst (cleanupOpenAPISpec spec) =
     filter (\<lambda>k. \<not> (k = ''components'' \<and> truthy (get spec ''components'')
                       \<and> own_keys (prune_components (get spec ''components'')) = [])
                \<and> \<not> (k = ''tags'' \<and> get spec ''tags'' = Arr []))
       (map fst spec)
   \<and> (\<forall>k. k \<noteq> ''components'' \<and> k \<noteq> ''tags'' \<longrightarrow> get (cleanupOpenAPISpec spec) k = get spec k)
   \<and> get (cleanupOpenAPISpec spec) ''tags'' =
       (if get spec ''tags'' = Arr [] then Undefined else get spec ''tags'')
   \<and> get (cleanupOpenAPISpec spec) ''components'' =
       (if truthy (get spec ''components'')
        then (if own_keys (prune_components (get spec ''components'')) = [] then Undefined
              else prune_components (get spec ''components''))
        else get spec ''components'')
   \<and> (\<forall>kvs. get spec ''components'' = Obj kvs \<longrightarrow>
         prune_components (get spec ''components'') =
           Obj (filter (\<lambda>kv. \<not> (fst kv \<in> set categories \<and> truthy (get kvs (fst kv))
                                    \<and> own_keys (get kvs (fst kv)) = [])) kvs))
   \<and> ((\<forall>kvs. get spec ''components'' \<noteq> Obj kvs) \<longrightarrow>
         prune_components (get spec ''components'') = get spec ''components'')"
  using cleanup_keys [of spec] cleanup_get_other [of _ spec] cleanup_get_tags [of spec]
    cleanup_get_components [of spec] prune_components_Obj prune_components_other
  by (intro conjI allI impI) simp_all

theorem cleanup_only_deletes_witness:
  "get example_spec ''components'' = Obj
         [(''schemas'', Obj [(''User'', Obj [(''type'', Str ''object'')])]),
          (''responses'', Obj []),
          (''securitySchemes'', Obj [])]
   \<and> get example_spec ''tags'' = Arr []
   \<and> map fst (cleanupOpenAPISpec example_spec) = [''openapi'', ''paths'', ''components'']
   \<and> get (cleanupOpenAPISpec example_spec) ''openapi'' = Str ''3.0.0''
   \<and> get (cleanupOpenAPISpec example_spec) ''paths'' = Obj []
   \<and> get (cleanupOpenAPISpec example_spec) ''tags'' = Undefined
   \<and> get (cleanupOpenAPISpec example_spec) ''components''
       = Obj [(''schemas'', Obj [(''User'', Obj [(''type'', Str ''object'')])])]"
proof -
  have c: "get example_spec ''components'' = Obj
         [(''schemas'', Obj [(''User'', Obj [(''type'', Str ''object'')])]),
          (''responses'', Obj []),
          (''securitySchemes'', Obj [])]"
    and t: "get example_spec ''tags'' = Arr []"
    and o: "get example_spec ''openapi'' = Str ''3.0.0''"
    and p: "get example_spec ''paths'' = Obj []"
    and k: "map fst example_spec = [''openapi'', ''paths'', ''components'', ''tags'']"
    by (simp_all add: example_spec_def get_def)
  note all = cleanup_only_deletes [of example_spec]
  from all have 1: "map fst (cleanupOpenAPISpec example_spec) =
     filter (\<lambda>k. \<not> (k = ''components'' \<and> truthy (get example_spec ''components'')
                       \<and> own_keys (prune_components (get example_spec ''components'')) = [])
                \<and> \<not> (k = ''tags'' \<and> get example_spec ''tags'' = Arr []))
       (map fst example_spec)"
    by blast
  from all have 2: "\<forall>k. k \<noteq> ''components'' \<and> k \<noteq> ''tags'' \<longrightarrow>
      get (cleanupOpenAPISpec example_spec) k = get example_spec k"
    by blast
  from all have 3: "get (cleanupOpenAPISpec example_spec) ''tags'' =
       (if get example_spec ''tags'' = Arr [] then Undefined else get example_spec ''tags'')"
    by blast
  from all have 4: "get (cleanupOpenAPISpec example_spec) ''components'' =
       (if truthy (get example_spec ''components'')
        then (if own_keys (prune_components (get example_spec ''components'')) = [] then Undefined
              else prune_components (get example_spec ''components''))
        else get example_spec ''components'')"
    by blast
  from all have 5: "\<forall>kvs. get example_spec ''components'' = Obj kvs \<longrightarrow>
         prune_components (get example_spec ''components'') =
           Obj (filter (\<lambda>kv. \<not> (fst kv \<in> set categories \<and> truthy (get kvs (fst kv))
                                    \<and> own_keys (get kvs (fst kv)) = [])) kvs)"
    by blast
  from 5 c have pr: "prune_components (get example_spec ''components'')
       = Obj [(''schemas'', Obj [(''User'', Obj [(''type'', Str ''object'')])])]"
    by (simp add: categories_def get_def own_keys_def)
  from 1 have "map fst (cleanupOpenAPISpec example_spec) = [''openapi'', ''paths'', ''components'']"
    unfolding pr k t by (simp add: own_keys_def)
  moreover from 2 o p have "get (cleanupOpenAPISpec example_spec) ''openapi'' = Str ''3.0.0''"
    and "get (cleanupOpenAPISpec example_spec) ''paths'' = Obj []"
    by simp_all
  moreover from 3 t have "get (cleanupOpenAPISpec example_spec) ''tags'' = Undefined"
    by simp
  moreover from 4 have "get (cleanupOpenAPISpec example_spec) ''components''
       = Obj [(''schemas'', Obj [(''User'', Obj [(''type'', Str ''object'')])])]"
    unfolding pr by (simp add: c own_keys_def)
  ultimately show ?thesis using c t by simp
qed

text \<open>
  Claim C10 as it is stated lets a category go only when it is an empty mapping. The
  test of line 191 looks at truthiness and at \<^verbatim>\<open>Object.keys\<close> only: in a components object
  whose \<^verbatim>\<open>schemas\<close> is \<^verbatim>\<open>true\<close>, whose \<^verbatim>\<open>responses\<close> is \<^verbatim>\<open>5\<close> and whose \<^verbatim>\<open>parameters\<close> is
  an empty array, all three are deleted, and none of them is an empty mapping.
\<close>

theorem cleanup_only_deletes_counterexample:
  "get odd_spec ''components'' = Obj
         [(''schemas'', Bool True),
          (''responses'', Num 5),
          (''parameters'', Arr []),
          (''securitySchemes'', Obj [(''key'', Obj [(''type'', Str ''apiKey'')])])]
   \<and> Bool True \<noteq> Obj [] \<and> Num 5 \<noteq> Obj [] \<and> Arr [] \<noteq> Obj []
   \<and> get (cleanupOpenAPISpec odd_spec) ''components''
       = Obj [(''securitySchemes'', Obj [(''key'', Obj [(''type'', Str ''apiKey'')])])]"
  by (simp add: odd_spec_def cleanupOpenAPISpec_def prune_components_def prune_category_def
        categories_def Let_def value_defs)

section \<open>The whole document\<close>

lemma template_after_either:
  "template_after dt r = dt
   \<or> template_after dt r =
       Obj (set_prop ''components'' (prune_components (prop_of dt ''components'')) (own_entries dt))"
  by (simp add: template_after_def split: option.splits prod.splits)

lemma prune_default:
  "Obj (set_prop ''components'' (prune_components (prop_of DEFAULT_TEMPLATE ''components''))
          (own_entries DEFAULT_TEMPLATE)) = pruned_template"
  by (simp add: DEFAULT_TEMPLATE_def pruned_template_def
        prune_components_def prune_category_def categories_def value_defs)

lemma prune_pruned:
  "Obj (set_prop ''components'' (prune_components (prop_of pruned_template ''components''))
          (own_entries pruned_template)) = pruned_template"
  by (simp add: pruned_template_def
        prune_components_def prune_category_def categories_def value_defs)

lemma template_after_cases:
  "dt = DEFAULT_TEMPLATE \<or> dt = pruned_template \<Longrightarrow>
   template_after dt r = DEFAULT_TEMPLATE \<or> template_after dt r = pruned_template"
  using template_after_either [of dt r] prune_default prune_pruned by auto

lemma template_state_cases:
  "template_state dt \<Longrightarrow> dt = DEFAULT_TEMPLATE \<or> dt = pruned_template"
proof (induction rule: template_state.induct)
  case initial
  then show ?case by simp
next
  case (request dt r)
  from request.IH show ?case by (rule template_after_cases)
qed

lemma spread_default: "spread_into [] DEFAULT_TEMPLATE = own_entries DEFAULT_TEMPLATE"
  by (simp add: DEFAULT_TEMPLATE_def value_defs)

lemma spread_pruned: "spread_into [] pruned_template = own_entries pruned_template"
  by (simp add: pruned_template_def value_defs)

lemma spread_nothing: "own_keys v = [] \<Longrightarrow> spread_into acc v = acc"
  by (simp add: spread_into_def own_keys_def)

lemma eachNode_undocumented:
  "\<forall>node\<in>set ns. \<not> documented gn node \<Longrightarrow> eachNode (process_node gn ap) ns paths = Some paths"
  by (induction ns) (simp_all add: process_node_undocumented)

lemma cleanup_default:
  "Obj (cleanupOpenAPISpec (set_prop ''paths'' (Obj [])
          (set_prop ''paths'' (Obj []) (own_entries DEFAULT_TEMPLATE))))
     = minimal_document"
  by (simp add: DEFAULT_TEMPLATE_def minimal_document_def
        cleanupOpenAPISpec_def prune_components_def prune_category_def categories_def value_defs)

lemma cleanup_pruned:
  "Obj (cleanupOpenAPISpec (set_prop ''paths'' (Obj [])
          (set_prop ''paths'' (Obj []) (own_entries pruned_template))))
     = minimal_document"
  by (simp add: DEFAULT_TEMPLATE_def pruned_template_def minimal_document_def
        cleanupOpenAPISpec_def prune_components_def prune_category_def categories_def value_defs)

text \<open>
  Claim C6, as amended. When no route is documented, no template override is configured
  and no base-path prefix other than \<^verbatim>\<open>/\<close> is configured, the response has status 200 and
  the document is the default template restricted to \<^verbatim>\<open>openapi\<close>, \<^verbatim>\<open>info\<close> and \<^verbatim>\<open>servers\<close>,
  followed by an empty \<^verbatim>\<open>paths\<close>: \<^verbatim>\<open>components\<close> and \<^verbatim>\<open>tags\<close> are deleted. This holds at
  the first request and at every later one.
\<close>

theorem no_routes_minimal_document:
  assumes "template_state dt"
    and "read_settings (settings r) = Some (httpNodeRoot, template, additionalParams)"
    and "own_keys template = []"
    and "\<not> truthy httpNodeRoot \<or> httpNodeRoot = Str ''/''"
    and "\<forall>node\<in>set (nodes r). \<not> documented (getNode r) node"
  shows "swagger_json dt r =
           \<lparr>status = 200,
            body = Obj
              (filter (\<lambda>kv. fst kv \<in> {''openapi'', ''info'', ''servers''})
                 (own_entries DEFAULT_TEMPLATE)
               @ [(''paths'', Obj [])])\<rparr>"
proof -
  from assms(1) have dt: "dt = DEFAULT_TEMPLATE \<or> dt = pruned_template"
    by (rule template_state_cases)
  then have sp: "spread_into [] dt = own_entries dt"
    using spread_default spread_pruned by auto
  have i: "initial_resp dt httpNodeRoot template = Some (set_prop ''paths'' (Obj []) (own_entries dt))"
    using assms(3,4) by (auto simp: initial_resp_def Let_def spread_nothing sp)
  have e: "eachNode (process_node (getNode r) additionalParams) (nodes r) [] = Some []"
    using assms(5) by (rule eachNode_undocumented)
  have c: "Obj (cleanupOpenAPISpec (set_prop ''paths'' (Obj [])
          (set_prop ''paths'' (Obj []) (own_entries dt)))) = minimal_document"
    using dt cleanup_default cleanup_pruned by auto
  have "generate dt r = Some minimal_document"
    by (simp add: generate_def assms(2) i e c)
  then show ?thesis by (simp add: swagger_json_def minimal_document_def)
qed

lemma plain_settings: "read_settings (settings plain_red) = Some (Undefined, Obj [], Arr [])"
  by (simp add: plain_red_def read_settings_def value_defs)

lemma plain_undocumented: "\<forall>node\<in>set (nodes plain_red). \<not> documented (getNode plain_red) node"
  by (simp add: plain_red_def documented_def get_def)

theorem no_routes_minimal_document_witness:
  "template_state DEFAULT_TEMPLATE
   \<and> template_state (template_after DEFAULT_TEMPLATE plain_red)
   \<and> read_settings (settings plain_red) = Some (Undefined, Obj [], Arr [])
   \<and> own_keys (Obj []) = []
   \<and> \<not> truthy Undefined
   \<and> length (nodes plain_red) = 2
   \<and> \<not> documented (getNode plain_red) (nodes plain_red ! 0)
   \<and> \<not> documented (getNode plain_red) (nodes plain_red ! 1)
   \<and> swagger_json DEFAULT_TEMPLATE plain_red =
       \<lparr>status = 200,
        body = Obj
          [(''openapi'', Str ''3.0.0''),
           (''info'', Obj
              [(''title'', Str ''My Node-RED API''),
               (''version'', Str ''1.0.0''),
               (''description'', Str ''A sample API'')]),
           (''servers'', Arr
              [Obj [(''url'', Str ''http://localhost:1880/''),
                    (''description'', Str ''Local server'')]]),
           (''paths'', Obj [])]\<rparr>
   \<and> swagger_json (template_after DEFAULT_TEMPLATE plain_red) plain_red
       = swagger_json DEFAULT_TEMPLATE plain_red"
proof -
  have k: "own_keys (Obj []) = []" by (simp add: own_keys_def)
  have t: "\<not> truthy Undefined \<or> Undefined = Str ''/''" by simp
  note s1 = template_state.initial
  note s2 = template_state.request [OF template_state.initial, of plain_red]
  from no_routes_minimal_document [OF s1 plain_settings k t plain_undocumented]
    no_routes_minimal_document [OF s2 plain_settings k t plain_undocumented]
  show ?thesis
    using s1 s2 plain_settings plain_undocumented k
    by (simp add: DEFAULT_TEMPLATE_def) (simp add: plain_red_def)
qed

lemma prefixed_settings:
  "read_settings (settings prefixed_red) = Some (Str ''/api'', Obj [], Arr [])"
  by (simp add: prefixed_red_def read_settings_def value_defs)

lemma prefixed_generate:
  "generate DEFAULT_TEMPLATE prefixed_red = Some (Obj
     [(''openapi'', Str ''3.0.0''),
      (''info'', Obj
         [(''title'', Str ''My Node-RED API''),
          (''version'', Str ''1.0.0''),
          (''description'', Str ''A sample API'')]),
      (''servers'', Arr
         [Obj [(''url'', Str ''http://localhost:1880/api''),
               (''description'', Str ''Local server'')]]),
      (''paths'', Obj [])])"
proof -
  have i: "initial_resp DEFAULT_TEMPLATE (Str ''/api'') (Obj []) = Some
     [(''openapi'', Str ''3.0.0''),
      (''info'', Obj
         [(''title'', Str ''My Node-RED API''),
          (''version'', Str ''1.0.0''),
          (''description'', Str ''A sample API'')]),
      (''servers'', Arr
         [Obj [(''url'', Str ''http://localhost:1880/api''),
               (''description'', Str ''Local server'')]]),
      (''paths'', Obj []),
      (''components'', Obj
         [(''schemas'', Obj []),
          (''responses'', Obj []),
          (''parameters'', Obj []),
          (''securitySchemes'', Obj [])]),
      (''tags'', Arr [])]"
    by (simp add: initial_resp_def Let_def adjust_servers_def adjust_server_def
          strip_end_slash_def DEFAULT_TEMPLATE_def value_defs)
  have e: "eachNode (process_node (getNode prefixed_red) (Arr [])) (nodes prefixed_red) [] = Some []"
    by (simp add: prefixed_red_def)
  show ?thesis
    by (simp add: generate_def prefixed_settings i e)
       (simp add: cleanupOpenAPISpec_def prune_components_def prune_category_def categories_def
          Let_def value_defs)
qed

text \<open>
  Claim C6 as it is stated says nothing of the base-path prefix. With the prefix \<^verbatim>\<open>/api\<close>,
  no route and no template override, the server list of the document is the adjusted
  one, not the one of the default template.
\<close>

theorem no_routes_minimal_document_counterexample:
  "read_settings (settings prefixed_red) = Some (Str ''/api'', Obj [], Arr [])
   \<and> nodes prefixed_red = []
   \<and> prop_of (body (swagger_json DEFAULT_TEMPLATE prefixed_red)) ''servers''
       = Arr [Obj [(''url'', Str ''http://localhost:1880/api''),
                   (''description'', Str ''Local server'')]]
   \<and> swagger_json DEFAULT_TEMPLATE prefixed_red \<noteq>
       \<lparr>status = 200,
        body = Obj
          (filter (\<lambda>kv. fst kv \<in> {''openapi'', ''info'', ''servers''})
             (own_entries DEFAULT_TEMPLATE)
           @ [(''paths'', Obj [])])\<rparr>"
  using prefixed_settings
  by (simp add: swagger_json_def prefixed_generate)
     (simp add: prefixed_red_def DEFAULT_TEMPLATE_def get_def)

lemma those_map_Some:
  "those (map f xs) = Some ys \<Longrightarrow>
   length ys = length xs \<and> (\<forall>i<length xs. f (xs ! i) = Some (ys ! i))"
proof (induction xs arbitrary: ys)
  case Nil
  then show ?case by simp
next
  case (Cons x xs)
  from Cons.prems obtain y zs where y: "f x = Some y" and zs: "those (map f xs) = Some zs"
    and ys: "ys = y # zs"
    by (auto split: option.splits)
  from Cons.IH [OF zs] y ys show ?case
    by (auto simp: nth_Cons split: nat.splits)
qed

lemma adjust_server_Some:
  "adjust_server root s = Some s' \<Longrightarrow>
   \<exists>u p. prop_of s ''url'' = Str u \<and> to_string root = Some p
     \<and> s' = Obj (set_prop ''url'' (Str (strip_end_slash u @ p)) (spread_into [] s))"
  by (cases "prop_of s ''url''")
     (auto simp: adjust_server_def split: if_splits option.splits)

lemma generate_Some:
  assumes "generate dt r = Some doc"
    and "read_settings (settings r) = Some (httpNodeRoot, template, additionalParams)"
  shows "\<exists>resp paths. initial_resp dt httpNodeRoot template = Some resp
           \<and> eachNode (process_node (getNode r) additionalParams) (nodes r) [] = Some paths
           \<and> doc = Obj (cleanupOpenAPISpec (set_prop ''paths'' (Obj paths) resp))"
  using assms by (auto simp: generate_def split: bind_splits)

lemma generate_servers:
  assumes "generate dt r = Some doc"
    and "read_settings (settings r) = Some (httpNodeRoot, template, additionalParams)"
    and "truthy httpNodeRoot" and "httpNodeRoot \<noteq> Str ''/''"
  shows "\<exists>xs ys. get (spread_into (spread_into [] dt) template) ''servers'' = Arr xs
           \<and> those (map (adjust_server httpNodeRoot) xs) = Some ys
           \<and> prop_of doc ''servers'' = Arr ys"
proof -
  let ?resp0 = "set_prop ''paths'' (Obj []) (spread_into (spread_into [] dt) template)"
  from generate_Some [OF assms(1,2)] obtain resp paths where
    i: "initial_resp dt httpNodeRoot template = Some resp"
    and d: "doc = Obj (cleanupOpenAPISpec (set_prop ''paths'' (Obj paths) resp))"
    by blast
  from i assms(3,4) obtain servers where
    a: "adjust_servers httpNodeRoot (get ?resp0 ''servers'') = Some servers"
    and r: "resp = set_prop ''servers'' servers ?resp0"
    by (auto simp: initial_resp_def Let_def)
  from a obtain xs ys where xs: "get ?resp0 ''servers'' = Arr xs"
    and ys: "those (map (adjust_server httpNodeRoot) xs) = Some ys" and s: "servers = Arr ys"
    by (cases "get ?resp0 ''servers''") (auto simp: adjust_servers_def)
  have "prop_of doc ''servers'' = Arr ys"
    by (simp add: d r s prop_of_Obj cleanup_get_other get_set_prop)
  moreover have "get (spread_into (spread_into [] dt) template) ''servers'' = Arr xs"
    using xs by (simp add: get_set_prop)
  ultimately show ?thesis using ys by blast
qed

lemma default_servers_api:
  "adjust_servers (Str ''/api'') (prop_of DEFAULT_TEMPLATE ''servers'') =
     Some (Arr [Obj [(''url'', Str ''http://localhost:1880/api''),
                     (''description'', Str ''Local server'')]])"
  by (simp add: adjust_servers_def adjust_server_def strip_end_slash_def DEFAULT_TEMPLATE_def
        value_defs)

text \<open>
  Claim C7. When a base-path prefix other than \<^verbatim>\<open>/\<close> is configured and the document is
  generated, every entry of the server list of the merged template (the default one or
  the one of the override) has a string as \<^verbatim>\<open>url\<close>, and the entry of the document at the
  same place is a copy of it whose \<^verbatim>\<open>url\<close> is that string without one trailing slash,
  followed by the prefix. With the prefix \<^verbatim>\<open>/api\<close> the default server
  \<^verbatim>\<open>http://localhost:1880/\<close> becomes \<^verbatim>\<open>http://localhost:1880/api\<close>.
\<close>

theorem servers_prefixed:
  "(\<forall>httpNodeRoot template additionalParams doc.
      read_settings (settings r) = Some (httpNodeRoot, template, additionalParams)
      \<and> truthy httpNodeRoot \<and> httpNodeRoot \<noteq> Str ''/'' \<and> generate dt r = Some doc \<longrightarrow>
      (\<exists>xs ys. get (spread_into (spread_into [] dt) template) ''servers'' = Arr xs
         \<and> prop_of doc ''servers'' = Arr ys \<and> length ys = length xs
         \<and> (\<forall>i<length xs. \<exists>u p. prop_of (xs ! i) ''url'' = Str u
               \<and> to_string httpNodeRoot = Some p
               \<and> ys ! i = Obj (set_prop ''url'' (Str (strip_end_slash u @ p))
                                (spread_into [] (xs ! i)))
               \<and> prop_of (ys ! i) ''url'' = Str (strip_end_slash u @ p))))
   \<and> adjust_servers (Str ''/api'') (prop_of DEFAULT_TEMPLATE ''servers'') =
       Some (Arr [Obj [(''url'', Str ''http://localhost:1880/api''),
                       (''description'', Str ''Local server'')]])"
proof (intro conjI allI impI)
  fix httpNodeRoot template additionalParams doc
  assume a: "read_settings (settings r) = Some (httpNodeRoot, template, additionalParams)
      \<and> truthy httpNodeRoot \<and> httpNodeRoot \<noteq> Str ''/'' \<and> generate dt r = Some doc"
  then obtain xs ys where
    xs: "get (spread_into (spread_into [] dt) template) ''servers'' = Arr xs"
    and ys: "those (map (adjust_server httpNodeRoot) xs) = Some ys"
    and d: "prop_of doc ''servers'' = Arr ys"
    using generate_servers [of dt r doc httpNodeRoot template additionalParams] by blast
  from those_map_Some [OF ys] have l: "length ys = length xs"
    and e: "\<forall>i<length xs. adjust_server httpNodeRoot (xs ! i) = Some (ys ! i)"
    by auto
  have "\<exists>u p. prop_of (xs ! i) ''url'' = Str u \<and> to_string httpNodeRoot = Some p
          \<and> ys ! i = Obj (set_prop ''url'' (Str (strip_end_slash u @ p)) (spread_into [] (xs ! i)))
          \<and> prop_of (ys ! i) ''url'' = Str (strip_end_slash u @ p)" if "i < length xs" for i
  proof -
    from e that have "adjust_server httpNodeRoot (xs ! i) = Some (ys ! i)" by simp
    from adjust_server_Some [OF this] obtain u p where
      "prop_of (xs ! i) ''url'' = Str u" "to_string httpNodeRoot = Some p"
      "ys ! i = Obj (set_prop ''url'' (Str (strip_end_slash u @ p)) (spread_into [] (xs ! i)))"
      by blast
    then show ?thesis by (simp add: prop_of_Obj get_set_prop)
  qed
  with xs d l show "\<exists>xs ys. get (spread_into (spread_into [] dt) template) ''servers'' = Arr xs
         \<and> prop_of doc ''servers'' = Arr ys \<and> length ys = length xs
         \<and> (\<forall>i<length xs. \<exists>u p. prop_of (xs ! i) ''url'' = Str u
               \<and> to_string httpNodeRoot = Some p
               \<and> ys ! i = Obj (set_prop ''url'' (Str (strip_end_slash u @ p))
                                (spread_into [] (xs ! i)))
               \<and> prop_of (ys ! i) ''url'' = Str (strip_end_slash u @ p))"
    by blast
next
  show "adjust_servers (Str ''/api'') (prop_of DEFAULT_TEMPLATE ''servers'') =
       Some (Arr [Obj [(''url'', Str ''http://localhost:1880/api''),
                       (''description'', Str ''Local server'')]])"
    by (rule default_servers_api)
qed

theorem servers_prefixed_witness:
  "read_settings (settings prefixed_red) = Some (Str ''/api'', Obj [], Arr [])
   \<and> truthy (Str ''/api'') \<and> Str ''/api'' \<noteq> Str ''/''
   \<and> generate DEFAULT_TEMPLATE prefixed_red \<noteq> None
   \<and> get (spread_into (spread_into [] DEFAULT_TEMPLATE) (Obj [])) ''servers''
       = Arr [Obj [(''url'', Str ''http://localhost:1880/''),
                   (''description'', Str ''Local server'')]]
   \<and> prop_of (the (generate DEFAULT_TEMPLATE prefixed_red)) ''servers''
       = Arr [Obj [(''url'', Str ''http://localhost:1880/api''),
                   (''description'', Str ''Local server'')]]"
proof -
  have g: "get (spread_into (spread_into [] DEFAULT_TEMPLATE) (Obj [])) ''servers''
       = Arr [Obj [(''url'', Str ''http://localhost:1880/''),
                   (''description'', Str ''Local server'')]]"
    by (simp add: DEFAULT_TEMPLATE_def value_defs)
  from servers_prefixed [of prefixed_red DEFAULT_TEMPLATE] prefixed_settings prefixed_generate
  have "\<exists>xs ys. get (spread_into (spread_into [] DEFAULT_TEMPLATE) (Obj [])) ''servers'' = Arr xs
         \<and> prop_of (Obj
     [(''openapi'', Str ''3.0.0''),
      (''info'', Obj
         [(''title'', Str ''My Node-RED API''),
          (''version'', Str ''1.0.0''),
          (''description'', Str ''A sample API'')]),
      (''servers'', Arr
         [Obj [(''url'', Str ''http://localhost:1880/api''),
               (''description'', Str ''Local server'')]]),
      (''paths'', Obj [])]) ''servers'' = Arr ys \<and> length ys = length xs
         \<and> (\<forall>i<length xs. \<exists>u p. prop_of (xs ! i) ''url'' = Str u
               \<and> to_string (Str ''/api'') = Some p
               \<and> ys ! i = Obj (set_prop ''url'' (Str (strip_end_slash u @ p))
                                (spread_into [] (xs ! i)))
               \<and> prop_of (ys ! i) ''url'' = Str (strip_end_slash u @ p))"
    by simp
  then show ?thesis
    using g prefixed_settings prefixed_generate by (auto simp: get_def)
qed

section \<open>Exceptions\<close>
































end
